theory Spec2Isabelle
  imports Complex_Main "HOL-Library.Log_Nat"
begin

section \<open>JavaScript numbers\<close>

text \<open>
  Every number of \<^verbatim>\<open>watermarkEngine.js\<close> is an IEEE 754 binary64 value. A finite
  binary64 value is a rational number, so the type of numbers is \<open>rat\<close>, and
  each arithmetic operation of the source is the exact operation followed by the
  rounding \<open>fl\<close> to the nearest value with a 53-bit significand, ties to the even
  significand. The exponent range is not bounded: every value the engine computes
  from image dimensions lies far inside the normal range of binary64, where
  overflow, underflow and subnormal numbers do not occur.
\<close>

type_synonym double = rat

definition roundTiesToEven :: "rat \<Rightarrow> int" where
  "roundTiesToEven z =
     (let f = \<lfloor>z\<rfloor>; d = z - of_int f
      in if d < 1/2 then f else if 1/2 < d then f + 1 else if even f then f else f + 1)"

text \<open>\<open>binade a\<close> is the exponent \<open>e\<close> with \<open>2\<^sup>e \<le> a < 2\<^sup>e\<^sup>+\<^sup>1\<close>, for positive \<open>a\<close>.\<close>

definition binade :: "rat \<Rightarrow> int" where
  "binade a =
     (let (p, q) = quotient_of a; d = bitlen p - bitlen q
      in if 2 powi d \<le> a then d else d - 1)"

definition fl_pos :: "rat \<Rightarrow> double" where
  "fl_pos a = (let u = 2 powi (binade a - 52) in of_int (roundTiesToEven (a / u)) * u)"

definition fl :: "rat \<Rightarrow> double" where
  "fl r = (if r = 0 then 0 else if 0 < r then fl_pos r else - fl_pos (- r))"

definition js_mul :: "double \<Rightarrow> double \<Rightarrow> double" where
  "js_mul a b = fl (a * b)"

definition js_add :: "double \<Rightarrow> double \<Rightarrow> double" where
  "js_add a b = fl (a + b)"

text \<open>The quotient \<open>a / b\<close> of the source, for a divisor other than zero.\<close>

definition js_div :: "double \<Rightarrow> double \<Rightarrow> double" where
  "js_div a b = fl (a / b)"

text \<open>
  \<^verbatim>\<open>Math.round\<close>: the nearest integer, a tie going to the larger one. It is exact.
\<close>

definition Math_round :: "double \<Rightarrow> int" where
  "Math_round v = \<lfloor>v + 1/2\<rfloor>"

section \<open>Constants of the engine\<close>

definition WATERMARK_TYPE_GEMINI :: string where
  "WATERMARK_TYPE_GEMINI = ''gemini''"

definition WATERMARK_TYPE_DOUBAO :: string where
  "WATERMARK_TYPE_DOUBAO = ''doubao''"

definition WATERMARK_TYPE_UNKNOWN :: string where
  "WATERMARK_TYPE_UNKNOWN = ''unknown''"

text \<open>
  The keys \<^verbatim>\<open>'1x1'\<close>, \<^verbatim>\<open>'2x3'\<close>, \<^verbatim>\<open>'3x2'\<close> of \<^verbatim>\<open>DOUBAO_CONFIGS\<close> and
  \<^verbatim>\<open>DOUBAO_BG_PATHS\<close>, the size categories and the source templates are closed
  sets of string tags; \<open>aspect_str\<close>, \<open>size_str\<close> give the strings back where
  the source uses them as text.
\<close>

datatype aspect_category = Cat1x1 | Cat2x3 | Cat3x2

datatype size_category = Small | Medium | Large

datatype source_template = T48 | T96

fun aspect_str :: "aspect_category \<Rightarrow> string" where
  "aspect_str Cat1x1 = ''1x1''"
| "aspect_str Cat2x3 = ''2x3''"
| "aspect_str Cat3x2 = ''3x2''"

fun size_str :: "size_category \<Rightarrow> string" where
  "size_str Small = ''small''"
| "size_str Medium = ''medium''"
| "size_str Large = ''large''"

record doubao_ref =
  refWidth :: int
  refHeight :: int
  wmWidth :: int
  wmHeight :: int
  refMarginRight :: int
  refMarginBottom :: int

fun DOUBAO_CONFIGS :: "aspect_category \<Rightarrow> doubao_ref" where
  "DOUBAO_CONFIGS Cat1x1 =
     \<lparr>refWidth = 2048, refHeight = 2048, wmWidth = 282, wmHeight = 123,
      refMarginRight = 57, refMarginBottom = 54\<rparr>"
| "DOUBAO_CONFIGS Cat2x3 =
     \<lparr>refWidth = 1672, refHeight = 2508, wmWidth = 225, wmHeight = 43,
      refMarginRight = 50, refMarginBottom = 50\<rparr>"
| "DOUBAO_CONFIGS Cat3x2 =
     \<lparr>refWidth = 2508, refHeight = 1672, wmWidth = 296, wmHeight = 71,
      refMarginRight = 53, refMarginBottom = 53\<rparr>"

record gemini_scaling =
  smallMaxEdge :: nat
  sizeSlope :: double
  sizeIntercept :: double
  marginSlope :: double
  marginIntercept :: double

text \<open>A decimal literal of the source denotes the binary64 value nearest to it.\<close>

definition GEMINI_SCALING :: gemini_scaling where
  "GEMINI_SCALING =
     \<lparr>smallMaxEdge = 1024,
      sizeSlope = fl (762376 / 10000000),
      sizeIntercept = fl (- 6015 / 100),
      marginSlope = fl (396040 / 10000000),
      marginIntercept = fl (- 1711 / 100)\<rparr>"

section \<open>Region resolver\<close>

record config =
  type :: string
  aspectCategory :: "aspect_category option"
  sizeCategory :: "size_category option"
  width :: int
  height :: int
  logoSize :: "int option"
  marginRight :: int
  marginBottom :: int
  sourceTemplate :: "source_template option"
  refConfig :: "doubao_ref option"

text \<open>
  \<^verbatim>\<open>getDoubaoAspectCategory\<close>. A zero height makes the quotient \<^verbatim>\<open>Infinity\<close>
  (wide) or, for \<^verbatim>\<open>0 / 0\<close>, \<^verbatim>\<open>NaN\<close>, which fails both comparisons.
\<close>

definition getDoubaoAspectCategory :: "nat \<Rightarrow> nat \<Rightarrow> aspect_category" where
  "getDoubaoAspectCategory imageWidth imageHeight =
     (if imageHeight = 0 then (if imageWidth = 0 then Cat1x1 else Cat3x2)
      else
        let ratio = js_div (of_nat imageWidth) (of_nat imageHeight)
        in if ratio < fl (8 / 10) then Cat2x3
           else if fl (12 / 10) < ratio then Cat3x2
           else Cat1x1)"

definition calculateGeminiConfig :: "nat \<Rightarrow> nat \<Rightarrow> config" where
  "calculateGeminiConfig imageWidth imageHeight =
     (let shortEdge = min imageWidth imageHeight
      in if shortEdge \<le> smallMaxEdge GEMINI_SCALING then
           \<lparr>type = WATERMARK_TYPE_GEMINI, aspectCategory = None, sizeCategory = Some Small,
            width = 48, height = 48, logoSize = Some 48, marginRight = 32, marginBottom = 32,
            sourceTemplate = Some T48, refConfig = None\<rparr>
         else if shortEdge \<le> 2048 then
           \<lparr>type = WATERMARK_TYPE_GEMINI, aspectCategory = None, sizeCategory = Some Medium,
            width = 96, height = 96, logoSize = Some 96, marginRight = 64, marginBottom = 64,
            sourceTemplate = Some T96, refConfig = None\<rparr>
         else
           let logoSize = Math_round (js_add (js_mul (sizeSlope GEMINI_SCALING) (of_nat shortEdge))
                                             (sizeIntercept GEMINI_SCALING));
               margin = Math_round (js_add (js_mul (marginSlope GEMINI_SCALING) (of_nat shortEdge))
                                           (marginIntercept GEMINI_SCALING))
           in \<lparr>type = WATERMARK_TYPE_GEMINI, aspectCategory = None, sizeCategory = Some Large,
               width = logoSize, height = logoSize, logoSize = Some logoSize,
               marginRight = margin, marginBottom = margin,
               sourceTemplate = Some T96, refConfig = None\<rparr>)"

definition detectWatermarkConfig :: "nat \<Rightarrow> nat \<Rightarrow> string \<Rightarrow> config" where
  "detectWatermarkConfig imageWidth imageHeight watermarkType =
     (if watermarkType = WATERMARK_TYPE_DOUBAO then
        let aspectCategory = getDoubaoAspectCategory imageWidth imageHeight;
            config = DOUBAO_CONFIGS aspectCategory;
            refShortEdge = min (refWidth config) (refHeight config);
            imgShortEdge = min imageWidth imageHeight;
            scale = js_div (of_nat imgShortEdge) (of_int refShortEdge);
            wmWidth = Math_round (js_mul (of_int (wmWidth config)) scale);
            wmHeight = Math_round (js_mul (of_int (wmHeight config)) scale);
            marginRight = Math_round (js_mul (of_int (refMarginRight config)) scale);
            marginBottom = Math_round (js_mul (of_int (refMarginBottom config)) scale)
        in \<lparr>type = WATERMARK_TYPE_DOUBAO, aspectCategory = Some aspectCategory,
            sizeCategory = None, width = wmWidth, height = wmHeight, logoSize = None,
            marginRight = marginRight, marginBottom = marginBottom,
            sourceTemplate = None, refConfig = Some config\<rparr>
      else calculateGeminiConfig imageWidth imageHeight)"

text \<open>\<^verbatim>\<open>calculateWatermarkPosition\<close>: the rectangle \<^verbatim>\<open>{x, y, width, height}\<close>.\<close>

record position =
  pos_x :: int
  pos_y :: int
  pos_width :: int
  pos_height :: int

definition calculateWatermarkPosition :: "nat \<Rightarrow> nat \<Rightarrow> config \<Rightarrow> position" where
  "calculateWatermarkPosition imageWidth imageHeight config =
     \<lparr>pos_x = int imageWidth - marginRight config - width config,
      pos_y = int imageHeight - marginBottom config - height config,
      pos_width = width config,
      pos_height = height config\<rparr>"

text \<open>
  The invariant the specification asks of a rectangle: it lies fully within the image.
\<close>

definition rectFits :: "nat \<Rightarrow> nat \<Rightarrow> position \<Rightarrow> bool" where
  "rectFits imageWidth imageHeight r \<longleftrightarrow>
     0 \<le> pos_x r \<and> 0 \<le> pos_y r \<and>
     pos_x r + pos_width r \<le> int imageWidth \<and> pos_y r + pos_height r \<le> int imageHeight"


section \<open>Text of the cache key\<close>

text \<open>
  A template literal writes an integer in decimal, a negative one with a minus sign.
\<close>

text \<open>The character of a digit below ten.\<close>

definition digit_char :: "nat \<Rightarrow> char" where
  "digit_char d = ''0123456789'' ! d"

fun nat_toString :: "nat \<Rightarrow> string" where
  "nat_toString n =
     (if n < 10 then [digit_char n] else nat_toString (n div 10) @ [digit_char (n mod 10)])"

definition js_toString :: "int \<Rightarrow> string" where
  "js_toString i = (if i < 0 then CHR ''-'' # nat_toString (nat (- i)) else nat_toString (nat i))"

text \<open>
  The key of \<^verbatim>\<open>getAlphaMap\<close>,
  \<^verbatim>\<open>`${type}_${aspectCategory || sizeCategory || 'default'}_${width}x${height}`\<close>.
  An absent category is \<open>None\<close>; the category strings are not empty, so a present
  one is truthy.
\<close>

definition cacheKey :: "config \<Rightarrow> string" where
  "cacheKey config =
     type config @ ''_'' @
     (case aspectCategory config of
        Some a \<Rightarrow> aspect_str a
      | None \<Rightarrow> (case sizeCategory config of Some s \<Rightarrow> size_str s | None \<Rightarrow> ''default'')) @
     ''_'' @ js_toString (width config) @ ''x'' @ js_toString (height config)"

section \<open>Engine\<close>

text \<open>A reference capture: a loaded \<^verbatim>\<open>Image\<close> element.\<close>

record capture =
  cap_src :: string
  cap_width :: nat
  cap_height :: nat
  cap_pixels :: "nat list"

record bg_captures =
  bg48 :: capture
  bg96 :: capture
  doubao :: "aspect_category \<Rightarrow> capture"

text \<open>An alpha map gives the opacity at a column and a row of the watermark.\<close>

type_synonym alpha_map = "nat \<Rightarrow> nat \<Rightarrow> rat"

record engine =
  bgCaptures :: bg_captures
  alphaMaps :: "string \<rightharpoonup> alpha_map"
  currentWatermarkType :: string

text \<open>
  \<open>RegionOutOfBounds\<close> is the error kind of the specification; no statement of
  \<^verbatim>\<open>watermarkEngine.js\<close> raises it. \<open>CanvasError\<close> is an exception thrown by a
  canvas operation, with its name.
\<close>

datatype error = RegionOutOfBounds | CanvasError string

definition WatermarkEngine :: "bg_captures \<Rightarrow> engine" where
  "WatermarkEngine captures =
     \<lparr>bgCaptures = captures, alphaMaps = Map.empty,
      currentWatermarkType = WATERMARK_TYPE_GEMINI\<rparr>"

definition setWatermarkType :: "engine \<Rightarrow> string \<Rightarrow> engine" where
  "setWatermarkType eng t =
     (if t \<in> set [WATERMARK_TYPE_GEMINI, WATERMARK_TYPE_DOUBAO, WATERMARK_TYPE_UNKNOWN]
      then eng\<lparr>currentWatermarkType := t\<rparr> else eng)"

subsection \<open>Initialization\<close>

text \<open>
  \<^verbatim>\<open>WatermarkEngine.create\<close> awaits \<^verbatim>\<open>Promise.all\<close> of five promises, one for each
  asset: the promise of an asset is resolved by the \<^verbatim>\<open>onload\<close> event of its image and
  rejected by its \<^verbatim>\<open>onerror\<close> event. The model runs over the events in the order they
  arrive. A promise settles once, so an event of an asset that is settled changes
  nothing; the first rejection rejects \<^verbatim>\<open>Promise.all\<close>, and \<^verbatim>\<open>create\<close> with it.
\<close>

datatype asset = GEMINI_BG_48 | GEMINI_BG_96 | DOUBAO_BG aspect_category

datatype load_event = Onload asset capture | Onerror asset

fun promiseAll :: "(asset \<rightharpoonup> capture) \<Rightarrow> load_event list \<Rightarrow> asset + (asset \<rightharpoonup> capture)" where
  "promiseAll got [] = Inr got"
| "promiseAll got (Onload a c # es) =
     promiseAll (if got a = None then got(a \<mapsto> c) else got) es"
| "promiseAll got (Onerror a # es) =
     (if got a = None then Inl a else promiseAll got es)"

text \<open>
  The outcome of \<^verbatim>\<open>create\<close> after the events: an engine, a rejection with the
  asset that failed, or still waiting.
\<close>

datatype creation = Ready engine | InitializationFailure asset | Loading

definition create :: "load_event list \<Rightarrow> creation" where
  "create events =
     (case promiseAll Map.empty events of
        Inl a \<Rightarrow> InitializationFailure a
      | Inr got \<Rightarrow>
          (case (got GEMINI_BG_48, got GEMINI_BG_96, got (DOUBAO_BG Cat1x1),
                 got (DOUBAO_BG Cat2x3), got (DOUBAO_BG Cat3x2)) of
             (Some b48, Some b96, Some d1x1, Some d2x3, Some d3x2) \<Rightarrow>
               Ready (WatermarkEngine
                 \<lparr>bg48 = b48, bg96 = b96,
                  doubao = (\<lambda>c. case c of Cat1x1 \<Rightarrow> d1x1 | Cat2x3 \<Rightarrow> d2x3 | Cat3x2 \<Rightarrow> d3x2)\<rparr>)
           | _ \<Rightarrow> Loading))"

text \<open>The capture an engine holds for an asset.\<close>

fun captureOf :: "bg_captures \<Rightarrow> asset \<Rightarrow> capture" where
  "captureOf captures GEMINI_BG_48 = bg48 captures"
| "captureOf captures GEMINI_BG_96 = bg96 captures"
| "captureOf captures (DOUBAO_BG c) = doubao captures c"

subsection \<open>Alpha maps and their cache\<close>

text \<open>
  The source template \<^verbatim>\<open>getAlphaMap\<close> selects for a configuration, with the source
  width and height it scales from.
\<close>

definition selectTemplate :: "bg_captures \<Rightarrow> config \<Rightarrow> capture \<times> nat \<times> nat" where
  "selectTemplate captures config =
     (if type config = WATERMARK_TYPE_DOUBAO then
        let category = (case aspectCategory config of Some a \<Rightarrow> a | None \<Rightarrow> Cat1x1);
            bgImage = doubao captures category
        in (bgImage, cap_width bgImage, cap_height bgImage)
      else if sourceTemplate config = Some T48 \<or>
              (case logoSize config of Some l \<Rightarrow> l \<le> 48 | None \<Rightarrow> False)
      then (bg48 captures, 48, 48)
      else (bg96 captures, 96, 96))"

text \<open>
  The canvas steps of \<^verbatim>\<open>getAlphaMap\<close> (a canvas of the target size, \<^verbatim>\<open>drawImage\<close>
  scaling the template into it, \<^verbatim>\<open>getImageData\<close>) and \<^verbatim>\<open>calculateAlphaMap\<close> of
  \<^verbatim>\<open>alphaMap.js\<close> are the parameter \<open>derive\<close>: from the template, its source size and
  the target size to an alpha map, or the name of the exception a canvas operation
  throws (\<^verbatim>\<open>getImageData\<close> throws \<^verbatim>\<open>IndexSizeError\<close> for a target of width or height
  zero). An exception leaves the cache as it was.
\<close>

type_synonym deriver = "capture \<Rightarrow> nat \<Rightarrow> nat \<Rightarrow> int \<Rightarrow> int \<Rightarrow> string + alpha_map"

definition getAlphaMap :: "deriver \<Rightarrow> engine \<Rightarrow> config \<Rightarrow> error + (alpha_map \<times> engine)" where
  "getAlphaMap derive eng config =
     (case alphaMaps eng (cacheKey config) of
        Some cached \<Rightarrow> Inr (cached, eng)
      | None \<Rightarrow>
          (case selectTemplate (bgCaptures eng) config of
             (bgImage, srcWidth, srcHeight) \<Rightarrow>
               (case derive bgImage srcWidth srcHeight (width config) (height config) of
                  Inl e \<Rightarrow> Inl (CanvasError e)
                | Inr alphaMap \<Rightarrow>
                    Inr (alphaMap,
                         eng\<lparr>alphaMaps := (alphaMaps eng)(cacheKey config \<mapsto> alphaMap)\<rparr>))))"

text \<open>
  A cache is sound when the entry under the key of a configuration of the detector is
  the alpha map derived from the template and for the size of that configuration.
\<close>

definition cacheSound :: "deriver \<Rightarrow> engine \<Rightarrow> bool" where
  "cacheSound derive eng \<longleftrightarrow>
     (\<forall>w h t cached.
        alphaMaps eng (cacheKey (detectWatermarkConfig w h t)) = Some cached \<longrightarrow>
        (case selectTemplate (bgCaptures eng) (detectWatermarkConfig w h t) of
           (bgImage, srcWidth, srcHeight) \<Rightarrow>
             derive bgImage srcWidth srcHeight
               (width (detectWatermarkConfig w h t)) (height (detectWatermarkConfig w h t))
             = Inr cached))"

section \<open>Reverse compositor\<close>


text \<open>
  The module \<^verbatim>\<open>blendModes.js\<close>, from which the engine imports \<^verbatim>\<open>removeWatermark\<close>,
  is not among the sources; the definitions of this section follow the
  specification of the reverse compositor. Their arithmetic is exact.
\<close>

text \<open>
  Modelled from the spec: the safety ceiling of \<^verbatim>\<open>blendModes.js\<close> (absent), to which
  the alpha is clamped before the division; the specification names 0.999.
\<close>

definition ALPHA_CEILING :: rat where
  "ALPHA_CEILING = 999 / 1000"

text \<open>
  Modelled from the spec: the forward model of \<^verbatim>\<open>blendModes.js\<close> (absent), a
  constant tint \<open>F\<close> painted over the true value, \<open>C_obs = a\<cdot>F + (1 - a)\<cdot>C_true\<close>.
  The tint is a parameter: the specification gives no value for it.
\<close>

definition forwardBlend :: "rat \<Rightarrow> rat \<Rightarrow> rat \<Rightarrow> rat" where
  "forwardBlend F C_true a = a * F + (1 - a) * C_true"

text \<open>
  Modelled from the spec: the clamp of the alpha in \<^verbatim>\<open>blendModes.js\<close> (absent).
\<close>

definition clampAlpha :: "rat \<Rightarrow> rat" where
  "clampAlpha a = min a ALPHA_CEILING"

text \<open>
  Modelled from the spec: the clamp of a channel value to the bytes 0 to 255 in
  \<^verbatim>\<open>blendModes.js\<close> (absent).
\<close>

definition clampByte :: "int \<Rightarrow> nat" where
  "clampByte v = nat (max 0 (min 255 v))"

text \<open>
  Modelled from the spec: the inversion of \<^verbatim>\<open>blendModes.js\<close> (absent) for one colour
  channel, \<open>(C_obs - a\<cdot>F) / (1 - a)\<close> with the clamped alpha, then rounded and
  clamped to the bytes.
\<close>

definition reverseBlend :: "rat \<Rightarrow> rat \<Rightarrow> rat \<Rightarrow> nat" where
  "reverseBlend F C_obs a =
     clampByte (Math_round ((C_obs - clampAlpha a * F) / (1 - clampAlpha a)))"

text \<open>
  Modelled from the spec: the observed channel value as the pixel buffer holds it,
  a byte: the value of the forward model rounded to the nearest integer and clamped
  to the bytes. The compositor of \<^verbatim>\<open>blendModes.js\<close> (absent) reads its input from
  such a buffer.
\<close>

definition observedByte :: "rat \<Rightarrow> nat \<Rightarrow> rat \<Rightarrow> nat" where
  "observedByte F C_true a = clampByte (Math_round (forwardBlend F (of_nat C_true) a))"




section \<open>Orchestrator: the call\<close>



section \<open>Example inputs\<close>

text \<open>
  An engine with empty captures of the template sizes, a deriver that gives the
  opacity one half everywhere and throws for an empty target, and a grey image of 40
  by 40 pixels, for evaluating the functions.
\<close>

definition exampleCaptures :: bg_captures where
  "exampleCaptures =
     \<lparr>bg48 = \<lparr>cap_src = ''./assets/bg_48.png'', cap_width = 48, cap_height = 48, cap_pixels = []\<rparr>,
      bg96 = \<lparr>cap_src = ''./assets/bg_96.png'', cap_width = 96, cap_height = 96, cap_pixels = []\<rparr>,
      doubao = (\<lambda>c. \<lparr>cap_src = ''./assets/doubao_bg_'' @ aspect_str c @ ''.png'',
                       cap_width = 300, cap_height = 130, cap_pixels = []\<rparr>)\<rparr>"



section \<open>Rounding is monotone\<close>

lemma roundTiesToEven_floor_le: "\<lfloor>z\<rfloor> \<le> roundTiesToEven z"
  by (simp add: roundTiesToEven_def Let_def)

lemma roundTiesToEven_le_ceiling: "roundTiesToEven z \<le> \<lceil>z\<rceil>"
proof -
  have "z - of_int \<lfloor>z\<rfloor> \<noteq> 0 \<Longrightarrow> \<lfloor>z\<rfloor> + 1 \<le> \<lceil>z\<rceil>"
    by (metis ceiling_altdef eq_iff_diff_eq_0 order_refl)
  moreover have "\<lfloor>z\<rfloor> \<le> \<lceil>z\<rceil>" by (simp add: floor_le_ceiling)
  ultimately show ?thesis
    by (auto simp add: roundTiesToEven_def Let_def)
qed

lemma roundTiesToEven_mono: "z \<le> z' \<Longrightarrow> roundTiesToEven z \<le> roundTiesToEven z'"
proof (cases "\<lfloor>z\<rfloor> = \<lfloor>z'\<rfloor>")
  case True
  assume "z \<le> z'"
  then have "z - of_int \<lfloor>z\<rfloor> \<le> z' - of_int \<lfloor>z'\<rfloor>" using True by simp
  then show ?thesis using True
    by (auto simp add: roundTiesToEven_def Let_def)
next
  case False
  assume le: "z \<le> z'"
  then have "\<lfloor>z\<rfloor> < \<lfloor>z'\<rfloor>" using False floor_mono[OF le] by linarith
  then have "\<lfloor>z\<rfloor> + 1 \<le> \<lfloor>z'\<rfloor>" by simp
  moreover have "roundTiesToEven z \<le> \<lfloor>z\<rfloor> + 1"
    by (simp add: roundTiesToEven_def Let_def)
  ultimately show ?thesis using roundTiesToEven_floor_le[of z'] by linarith
qed

lemma binade_bounds:
  assumes "0 < a"
  shows "2 powi binade a \<le> a" and "a < 2 powi (binade a + 1)"
proof -
  obtain p q where pq: "quotient_of a = (p, q)" by (cases "quotient_of a")
  then have q: "0 < q" and a: "a = of_int p / of_int q"
    using quotient_of_denom_pos quotient_of_div by blast+
  have p: "0 < p" using assms a q by (simp add: zero_less_divide_iff)
  define bp where "bp = bitlen p"
  define bq where "bq = bitlen q"
  have bp1: "1 \<le> bp" and bq1: "1 \<le> bq" using p q by (auto simp: bp_def bq_def bitlen_alt_def)
  have ints: "p < 2 ^ nat bp" "2 ^ nat (bq - 1) \<le> q" "2 ^ nat (bp - 1) \<le> p" "q < 2 ^ nat bq"
    using bitlen_bounds[OF p] bitlen_bounds[OF q] by (auto simp: bp_def bq_def)
  have "(of_int p :: rat) < of_int (2 ^ nat bp)" using ints(1) of_int_less_iff by blast
  then have P1: "(of_int p :: rat) < 2 powi bp" using bp1 by (simp add: power_int_def)
  have "(of_int (2 ^ nat (bp - 1)) :: rat) \<le> of_int p" using ints(3) of_int_le_iff by blast
  then have P2: "(2::rat) powi (bp - 1) \<le> of_int p" using bp1 by (simp add: power_int_def)
  have "(of_int q :: rat) < of_int (2 ^ nat bq)" using ints(4) of_int_less_iff by blast
  then have Q1: "(of_int q :: rat) < 2 powi bq" using bq1 by (simp add: power_int_def)
  have "(of_int (2 ^ nat (bq - 1)) :: rat) \<le> of_int q" using ints(2) of_int_le_iff by blast
  then have Q2: "(2::rat) powi (bq - 1) \<le> of_int q" using bq1 by (simp add: power_int_def)
  have qpos: "(0::rat) < of_int q" using q by simp
  have up: "a < 2 powi (bp - bq + 1)"
  proof -
    have "of_int p < (2::rat) powi (bp - bq + 1) * 2 powi (bq - 1)"
      using P1 by (simp add: power_int_add[symmetric])
    also have "\<dots> \<le> 2 powi (bp - bq + 1) * of_int q"
      using Q2 by (simp add: mult_left_mono)
    finally show ?thesis using qpos by (simp add: a pos_divide_less_eq)
  qed
  have lo: "2 powi (bp - bq - 1) < a"
  proof -
    have "(2::rat) powi (bp - bq - 1) * of_int q < 2 powi (bp - bq - 1) * 2 powi bq"
      using Q1 by (simp add: mult_strict_left_mono)
    also have "\<dots> = 2 powi (bp - 1)" by (simp add: power_int_add[symmetric])
    also have "\<dots> \<le> of_int p" by (rule P2)
    finally show ?thesis using qpos by (simp add: a pos_less_divide_eq)
  qed
  have bin: "binade a = (if 2 powi (bp - bq) \<le> a then bp - bq else bp - bq - 1)"
    by (simp add: binade_def pq bp_def bq_def Let_def)
  show "2 powi binade a \<le> a" using lo by (auto simp: bin)
  show "a < 2 powi (binade a + 1)" using up by (auto simp: bin not_le)
qed

lemma two_powi_less_D: "(2::rat) powi m < 2 powi n \<Longrightarrow> m < n"
proof (rule ccontr)
  assume lt: "(2::rat) powi m < 2 powi n" and "\<not> m < n"
  then have "n \<le> m" by simp
  then have "(2::rat) powi n \<le> 2 powi m" by (rule power_int_increasing) simp
  with lt show False by simp
qed

lemma binade_unique:
  assumes "2 powi e \<le> a" "a < 2 powi (e + 1)"
  shows "binade a = e"
proof -
  have "(0::rat) < 2 powi e" by simp
  then have pos: "0 < a" using assms(1) by linarith
  note b = binade_bounds[OF pos]
  have "(2::rat) powi e < 2 powi (binade a + 1)" using assms(1) b(2) by linarith
  then have "e < binade a + 1" by (rule two_powi_less_D)
  moreover have "(2::rat) powi binade a < 2 powi (e + 1)" using assms(2) b(1) by linarith
  then have "binade a < e + 1" by (rule two_powi_less_D)
  ultimately show ?thesis by linarith
qed

lemma binade_mono:
  assumes "0 < a" "a \<le> b"
  shows "binade a \<le> binade b"
proof -
  have "(2::rat) powi binade a \<le> a" using binade_bounds(1)[OF assms(1)] .
  also have "a \<le> b" by fact
  also have "b < 2 powi (binade b + 1)" using binade_bounds(2)[of b] assms by simp
  finally have "binade a < binade b + 1" by (rule two_powi_less_D)
  then show ?thesis by simp
qed

lemma fl_pos_bounds:
  assumes "0 < a"
  shows "2 powi binade a \<le> fl_pos a" and "fl_pos a \<le> 2 powi (binade a + 1)"
proof -
  define u :: rat where "u = 2 powi (binade a - 52)"
  have u: "0 < u" by (simp add: u_def)
  have lo: "2 ^ 52 \<le> a / u"
  proof -
    have "(2::rat) ^ 52 * u = 2 powi binade a"
      unfolding u_def by (simp add: power_int_diff)
    then show ?thesis using binade_bounds(1)[OF assms] u by (simp add: pos_le_divide_eq)
  qed
  have hi: "a / u \<le> 2 ^ 53"
  proof -
    have "(2::rat) ^ 53 * u = 2 powi (binade a + 1)"
      unfolding u_def by (simp add: power_int_diff power_int_add)
    then show ?thesis using binade_bounds(2)[OF assms] u by (simp add: pos_divide_le_eq)
  qed
  have "(2::int) ^ 52 \<le> \<lfloor>a / u\<rfloor>" using lo by (simp add: le_floor_iff)
  then have "(2::int) ^ 52 \<le> roundTiesToEven (a / u)"
    using roundTiesToEven_floor_le[of "a / u"] by linarith
  then have "(of_int (2 ^ 52) :: rat) \<le> of_int (roundTiesToEven (a / u))"
    using of_int_le_iff by blast
  then have "(2::rat) ^ 52 * u \<le> of_int (roundTiesToEven (a / u)) * u"
    using u by (simp add: mult_right_mono)
  then show "2 powi binade a \<le> fl_pos a"
    unfolding fl_pos_def Let_def u_def[symmetric]
    by (simp add: u_def power_int_diff)
  have "\<lceil>a / u\<rceil> \<le> (2::int) ^ 53" using hi by (simp add: ceiling_le_iff)
  then have "roundTiesToEven (a / u) \<le> (2::int) ^ 53"
    using roundTiesToEven_le_ceiling[of "a / u"] by linarith
  then have "(of_int (roundTiesToEven (a / u)) :: rat) \<le> of_int (2 ^ 53)"
    using of_int_le_iff by blast
  then have "of_int (roundTiesToEven (a / u)) * u \<le> (2::rat) ^ 53 * u"
    using u by (simp add: mult_right_mono)
  then show "fl_pos a \<le> 2 powi (binade a + 1)"
    unfolding fl_pos_def Let_def u_def[symmetric]
    by (simp add: u_def power_int_diff power_int_add)
qed

lemma fl_pos_mono:
  assumes "0 < a" "a \<le> b"
  shows "fl_pos a \<le> fl_pos b"
proof (cases "binade a = binade b")
  case True
  define u :: rat where "u = 2 powi (binade b - 52)"
  have u: "0 < u" by (simp add: u_def)
  have "a / u \<le> b / u" using assms(2) u by (simp add: divide_right_mono)
  then have "roundTiesToEven (a / u) \<le> roundTiesToEven (b / u)" by (rule roundTiesToEven_mono)
  then have "(of_int (roundTiesToEven (a / u)) :: rat) \<le> of_int (roundTiesToEven (b / u))"
    using of_int_le_iff by blast
  then show ?thesis using u True
    by (simp add: fl_pos_def Let_def u_def[symmetric] mult_right_mono)
next
  case False
  have b: "0 < b" using assms by simp
  have "binade a + 1 \<le> binade b" using False binade_mono[OF assms] by simp
  then have "(2::rat) powi (binade a + 1) \<le> 2 powi binade b"
    by (simp add: power_int_increasing)
  then show ?thesis using fl_pos_bounds(2)[OF assms(1)] fl_pos_bounds(1)[OF b] by linarith
qed

lemma fl_pos_positive:
  assumes "0 < a"
  shows "0 < fl_pos a"
proof -
  have "(0::rat) < 2 powi binade a" by simp
  then show ?thesis using fl_pos_bounds(1)[OF assms] by linarith
qed

lemma fl_mono: "x \<le> y \<Longrightarrow> fl x \<le> fl y"
  using fl_pos_mono[of x y] fl_pos_mono[of "- y" "- x"] fl_pos_positive[of x]
    fl_pos_positive[of y] fl_pos_positive[of "- x"] fl_pos_positive[of "- y"]
  by (auto simp add: fl_def not_less)

section \<open>Gemini: calibration points and monotone interpolation\<close>

lemma sizeSlope_val: "sizeSlope GEMINI_SCALING = 5493498031225935 / 72057594037927936"
proof -
  have "fl (762376 / 10000000) = 5493498031225935 / 72057594037927936" by code_simp
  then show ?thesis by (simp add: GEMINI_SCALING_def)
qed

lemma sizeIntercept_val: "sizeIntercept GEMINI_SCALING = - (8465359924572979 / 140737488355328)"
proof -
  have "fl (- 6015 / 100) = - (8465359924572979 / 140737488355328)" by code_simp
  then show ?thesis by (simp add: GEMINI_SCALING_def)
qed

lemma marginSlope_val: "marginSlope GEMINI_SCALING = 1426884477139049 / 36028797018963968"
proof -
  have "fl (396040 / 10000000) = 1426884477139049 / 36028797018963968" by code_simp
  then show ?thesis by (simp add: GEMINI_SCALING_def)
qed

lemma marginIntercept_val: "marginIntercept GEMINI_SCALING = - (1204009212879831 / 70368744177664)"
proof -
  have "fl (- 1711 / 100) = - (1204009212879831 / 70368744177664)" by code_simp
  then show ?thesis by (simp add: GEMINI_SCALING_def)
qed

lemma size_at_2048:
  "Math_round (js_add (js_mul (sizeSlope GEMINI_SCALING) 2048) (sizeIntercept GEMINI_SCALING)) = 96"
proof -
  have 1: "fl (5493498031225935 / 72057594037927936 * 2048) = 5493498031225935 / 35184372088832"
    by code_simp
  have 2: "fl (5493498031225935 / 35184372088832 + - (8465359924572979 / 140737488355328)) = 1688579025041345 / 17592186044416"
    by code_simp
  have 3: "Math_round (1688579025041345 / 17592186044416) = 96"
    by code_simp
  show ?thesis
    unfolding js_add_def js_mul_def sizeSlope_val sizeIntercept_val 1 2 3 ..
qed

lemma margin_at_2048:
  "Math_round (js_add (js_mul (marginSlope GEMINI_SCALING) 2048) (marginIntercept GEMINI_SCALING)) = 64"
proof -
  have 1: "fl (1426884477139049 / 36028797018963968 * 2048) = 1426884477139049 / 17592186044416"
    by code_simp
  have 2: "fl (1426884477139049 / 17592186044416 + - (1204009212879831 / 70368744177664)) = 4503528695676365 / 70368744177664"
    by code_simp
  have 3: "Math_round (4503528695676365 / 70368744177664) = 64"
    by code_simp
  show ?thesis
    unfolding js_add_def js_mul_def marginSlope_val marginIntercept_val 1 2 3 ..
qed

lemma size_at_3058:
  "Math_round (js_add (js_mul (sizeSlope GEMINI_SCALING) 3058) (sizeIntercept GEMINI_SCALING)) = 173"
proof -
  have 1: "fl (5493498031225935 / 72057594037927936 * 3058) = 8202693837641069 / 35184372088832"
    by code_simp
  have 2: "fl (8202693837641069 / 35184372088832 + - (8465359924572979 / 140737488355328)) = 190198558015557 / 1099511627776"
    by code_simp
  have 3: "Math_round (190198558015557 / 1099511627776) = 173"
    by code_simp
  show ?thesis
    unfolding js_add_def js_mul_def sizeSlope_val sizeIntercept_val 1 2 3 ..
qed

lemma margin_at_3058:
  "Math_round (js_add (js_mul (marginSlope GEMINI_SCALING) 3058) (marginIntercept GEMINI_SCALING)) = 104"
proof -
  have 1: "fl (1426884477139049 / 36028797018963968 * 3058) = 8522290490412523 / 70368744177664"
    by code_simp
  have 2: "fl (8522290490412523 / 70368744177664 + - (1204009212879831 / 70368744177664)) = 1829570319383173 / 17592186044416"
    by code_simp
  have 3: "Math_round (1829570319383173 / 17592186044416) = 104"
    by code_simp
  show ?thesis
    unfolding js_add_def js_mul_def marginSlope_val marginIntercept_val 1 2 3 ..
qed


lemma smallMaxEdge_val: "smallMaxEdge GEMINI_SCALING = 1024"
  by (simp add: GEMINI_SCALING_def)

lemma calculateGeminiConfig_large:
  assumes "2048 < min imageWidth imageHeight"
  shows "calculateGeminiConfig imageWidth imageHeight =
     \<lparr>type = WATERMARK_TYPE_GEMINI, aspectCategory = None, sizeCategory = Some Large,
      width = Math_round (js_add (js_mul (sizeSlope GEMINI_SCALING)
                 (of_nat (min imageWidth imageHeight))) (sizeIntercept GEMINI_SCALING)),
      height = Math_round (js_add (js_mul (sizeSlope GEMINI_SCALING)
                 (of_nat (min imageWidth imageHeight))) (sizeIntercept GEMINI_SCALING)),
      logoSize = Some (Math_round (js_add (js_mul (sizeSlope GEMINI_SCALING)
                 (of_nat (min imageWidth imageHeight))) (sizeIntercept GEMINI_SCALING))),
      marginRight = Math_round (js_add (js_mul (marginSlope GEMINI_SCALING)
                 (of_nat (min imageWidth imageHeight))) (marginIntercept GEMINI_SCALING)),
      marginBottom = Math_round (js_add (js_mul (marginSlope GEMINI_SCALING)
                 (of_nat (min imageWidth imageHeight))) (marginIntercept GEMINI_SCALING)),
      sourceTemplate = Some T96, refConfig = None\<rparr>"
proof -
  have "\<not> min imageWidth imageHeight \<le> 1024" "\<not> min imageWidth imageHeight \<le> 2048"
    using assms by linarith+
  then show ?thesis
    unfolding calculateGeminiConfig_def Let_def smallMaxEdge_val by (simp only: if_False)
qed

lemma calculateGeminiConfig_medium:
  assumes "1024 < min imageWidth imageHeight" "min imageWidth imageHeight \<le> 2048"
  shows "calculateGeminiConfig imageWidth imageHeight =
     \<lparr>type = WATERMARK_TYPE_GEMINI, aspectCategory = None, sizeCategory = Some Medium,
      width = 96, height = 96, logoSize = Some 96, marginRight = 64, marginBottom = 64,
      sourceTemplate = Some T96, refConfig = None\<rparr>"
proof -
  have "\<not> min imageWidth imageHeight \<le> 1024" using assms(1) by linarith
  then show ?thesis
    unfolding calculateGeminiConfig_def Let_def smallMaxEdge_val using assms(2)
    by (simp only: if_False if_True)
qed

lemma calculateGeminiConfig_small:
  assumes "min imageWidth imageHeight \<le> 1024"
  shows "calculateGeminiConfig imageWidth imageHeight =
     \<lparr>type = WATERMARK_TYPE_GEMINI, aspectCategory = None, sizeCategory = Some Small,
      width = 48, height = 48, logoSize = Some 48, marginRight = 32, marginBottom = 32,
      sourceTemplate = Some T48, refConfig = None\<rparr>"
  unfolding calculateGeminiConfig_def Let_def smallMaxEdge_val using assms
  by (simp only: if_True)

lemma decimal_formula_values:
  "Math_round (762376 / 10000000 * 2048 + (- 6015 / 100)) = 96"
  "Math_round (396040 / 10000000 * 2048 + (- 1711 / 100)) = 64"
  "Math_round (762376 / 10000000 * 3058 + (- 6015 / 100)) = 173"
  "Math_round (396040 / 10000000 * 3058 + (- 1711 / 100)) = 104"
  by code_simp+

text \<open>
  C2. For the Gemini variant the rule meets the two calibration points at their exact
  edges: an image whose shorter edge is exactly 2048 resolves to watermark size 96 and
  margin 64, one whose shorter edge is exactly 3058 resolves to size 173 and margin
  104, and the interpolation formula, rounded to the nearest integer, gives 96 and 64
  at 2048 and 173 and 104 at 3058, evaluated in binary64 as the source does and
  evaluated exactly on the decimal constants alike.
\<close>

theorem gemini_calibration_points:
  "(min w h = 2048 \<longrightarrow>
      width (calculateGeminiConfig w h) = 96 \<and> height (calculateGeminiConfig w h) = 96 \<and>
      marginRight (calculateGeminiConfig w h) = 64 \<and>
      marginBottom (calculateGeminiConfig w h) = 64) \<and>
   (min w h = 3058 \<longrightarrow>
      width (calculateGeminiConfig w h) = 173 \<and> height (calculateGeminiConfig w h) = 173 \<and>
      marginRight (calculateGeminiConfig w h) = 104 \<and>
      marginBottom (calculateGeminiConfig w h) = 104) \<and>
   Math_round (js_add (js_mul (sizeSlope GEMINI_SCALING) 2048) (sizeIntercept GEMINI_SCALING)) = 96 \<and>
   Math_round (js_add (js_mul (marginSlope GEMINI_SCALING) 2048) (marginIntercept GEMINI_SCALING)) = 64 \<and>
   Math_round (js_add (js_mul (sizeSlope GEMINI_SCALING) 3058) (sizeIntercept GEMINI_SCALING)) = 173 \<and>
   Math_round (js_add (js_mul (marginSlope GEMINI_SCALING) 3058) (marginIntercept GEMINI_SCALING)) = 104 \<and>
   Math_round (762376 / 10000000 * 2048 + (- 6015 / 100)) = 96 \<and>
   Math_round (396040 / 10000000 * 2048 + (- 1711 / 100)) = 64 \<and>
   Math_round (762376 / 10000000 * 3058 + (- 6015 / 100)) = 173 \<and>
   Math_round (396040 / 10000000 * 3058 + (- 1711 / 100)) = 104"
proof -
  have a: "min w h = 2048 \<longrightarrow>
      width (calculateGeminiConfig w h) = 96 \<and> height (calculateGeminiConfig w h) = 96 \<and>
      marginRight (calculateGeminiConfig w h) = 64 \<and>
      marginBottom (calculateGeminiConfig w h) = 64"
  proof
    assume m: "min w h = 2048"
    show "width (calculateGeminiConfig w h) = 96 \<and> height (calculateGeminiConfig w h) = 96 \<and>
      marginRight (calculateGeminiConfig w h) = 64 \<and>
      marginBottom (calculateGeminiConfig w h) = 64"
      by (simp add: calculateGeminiConfig_medium m)
  qed
  have b: "min w h = 3058 \<longrightarrow>
      width (calculateGeminiConfig w h) = 173 \<and> height (calculateGeminiConfig w h) = 173 \<and>
      marginRight (calculateGeminiConfig w h) = 104 \<and>
      marginBottom (calculateGeminiConfig w h) = 104"
  proof
    assume m: "min w h = 3058"
    then have l: "2048 < min w h" by simp
    show "width (calculateGeminiConfig w h) = 173 \<and> height (calculateGeminiConfig w h) = 173 \<and>
      marginRight (calculateGeminiConfig w h) = 104 \<and>
      marginBottom (calculateGeminiConfig w h) = 104"
      unfolding calculateGeminiConfig_large[OF l] m
      using size_at_3058 margin_at_3058 by simp
  qed
  show ?thesis
    using a b size_at_2048 margin_at_2048 size_at_3058 margin_at_3058 decimal_formula_values
    by blast
qed

text \<open>
  Images of 4096 by 3058 and of 2048 by 4000 pixels have these shorter edges.
\<close>

theorem gemini_calibration_points_witness:
  "min (4096::nat) 3058 = 3058 \<and> min (2048::nat) 4000 = 2048 \<and>
   width (calculateGeminiConfig 4096 3058) = 173 \<and>
   marginRight (calculateGeminiConfig 4096 3058) = 104 \<and>
   width (calculateGeminiConfig 2048 4000) = 96 \<and>
   marginRight (calculateGeminiConfig 2048 4000) = 64"
  using gemini_calibration_points [of 4096 3058] gemini_calibration_points [of 2048 4000]
  by simp

lemma fl_zero: "fl 0 = 0"
  by (simp add: fl_def)

lemma fl_nonneg: "0 \<le> x \<Longrightarrow> 0 \<le> fl x"
  using fl_mono[of 0 x] by (simp add: fl_zero)

lemma Math_round_mono: "x \<le> y \<Longrightarrow> Math_round x \<le> Math_round y"
  by (simp add: Math_round_def floor_mono)

lemma interpolation_mono:
  assumes "0 \<le> slope" "e1 \<le> e2"
  shows "Math_round (js_add (js_mul slope (of_nat e1)) c)
       \<le> Math_round (js_add (js_mul slope (of_nat e2)) c)"
proof -
  have "(of_nat e1 :: rat) \<le> of_nat e2" using assms(2) by simp
  then have "slope * of_nat e1 \<le> slope * of_nat e2"
    using assms(1) by (rule mult_left_mono)
  then have "js_mul slope (of_nat e1) \<le> js_mul slope (of_nat e2)"
    unfolding js_mul_def by (rule fl_mono)
  then have "js_mul slope (of_nat e1) + c \<le> js_mul slope (of_nat e2) + c" by simp
  then have "js_add (js_mul slope (of_nat e1)) c \<le> js_add (js_mul slope (of_nat e2)) c"
    unfolding js_add_def by (rule fl_mono)
  then show ?thesis by (rule Math_round_mono)
qed

lemma slopes_nonneg: "0 \<le> sizeSlope GEMINI_SCALING" "0 \<le> marginSlope GEMINI_SCALING"
  by (simp_all add: GEMINI_SCALING_def fl_nonneg)

text \<open>
  C8. For the Gemini variant, beyond the largest bucket (shorter edge above 2048) the
  resolved size and margin do not decrease when the shorter edge grows: for shorter
  edges \<open>e1 \<le> e2\<close>, both above 2048, the size at \<open>e1\<close> is at most the size at
  \<open>e2\<close>, and likewise the margin.
\<close>

theorem gemini_interpolation_monotone:
  assumes "2048 < min w1 h1" "min w1 h1 \<le> min w2 h2"
  shows "width (calculateGeminiConfig w1 h1) \<le> width (calculateGeminiConfig w2 h2) \<and>
         height (calculateGeminiConfig w1 h1) \<le> height (calculateGeminiConfig w2 h2) \<and>
         marginRight (calculateGeminiConfig w1 h1) \<le> marginRight (calculateGeminiConfig w2 h2) \<and>
         marginBottom (calculateGeminiConfig w1 h1) \<le> marginBottom (calculateGeminiConfig w2 h2)"
proof -
  have l2: "2048 < min w2 h2" using assms by linarith
  show ?thesis
    unfolding calculateGeminiConfig_large[OF assms(1)] calculateGeminiConfig_large[OF l2]
    using interpolation_mono[OF slopes_nonneg(1) assms(2)]
          interpolation_mono[OF slopes_nonneg(2) assms(2)]
    by simp
qed

text \<open>
  Shorter edges 3058 and 4000.
\<close>

theorem gemini_interpolation_monotone_witness:
  "(2048::nat) < min 4096 3058 \<and> min (4096::nat) 3058 \<le> min 5000 4000 \<and>
   width (calculateGeminiConfig 4096 3058) \<le> width (calculateGeminiConfig 5000 4000) \<and>
   marginRight (calculateGeminiConfig 4096 3058) \<le> marginRight (calculateGeminiConfig 5000 4000)"
  using gemini_interpolation_monotone [of 4096 3058 5000 4000] by simp

section \<open>Doubao: aspect classification\<close>

lemma tall_gap: "fl (4 / 5 - 1 / (5 * 2 ^ 32)) < fl (8 / 10)"
  by code_simp

lemma wide_gap: "fl (12 / 10) < fl (6 / 5 + 1 / (5 * 2 ^ 32))"
  by code_simp

lemma literal_order: "fl (8 / 10) \<le> fl (12 / 10)"
  by (rule fl_mono) simp

lemma getDoubaoAspectCategory_ratio:
  assumes "0 < imageHeight"
  shows "getDoubaoAspectCategory imageWidth imageHeight =
     (if fl (of_nat imageWidth / of_nat imageHeight) < fl (8 / 10) then Cat2x3
      else if fl (12 / 10) < fl (of_nat imageWidth / of_nat imageHeight) then Cat3x2
      else Cat1x1)"
  using assms by (simp add: getDoubaoAspectCategory_def js_div_def Let_def)

lemma ratio_below:
  fixes w h :: nat
  assumes "0 < h" "h < 2 ^ 32" "(of_nat w / of_nat h :: rat) < 4 / 5"
  shows "(of_nat w / of_nat h :: rat) \<le> 4 / 5 - 1 / (5 * 2 ^ 32)"
proof -
  have hp: "(0::rat) < of_nat h" using assms(1) by simp
  have "(of_nat w :: rat) * 5 < 4 * of_nat h"
    using assms(3) hp by (simp add: pos_divide_less_eq)
  then have "(of_nat (w * 5) :: rat) < of_nat (4 * h)" by simp
  then have "w * 5 < 4 * h" using of_nat_less_iff by blast
  then have "w * 5 + 1 \<le> 4 * h" by simp
  then have "(of_nat (w * 5 + 1) :: rat) \<le> of_nat (4 * h)" using of_nat_le_iff by blast
  then have a: "(of_nat w :: rat) * 5 + 1 \<le> 4 * of_nat h" by simp
  have "(of_nat h :: rat) < of_nat (2 ^ 32)" using assms(2) of_nat_less_iff by blast
  then have b: "(of_nat h :: rat) \<le> 2 ^ 32" by simp
  have "(of_nat w :: rat) \<le> (4 / 5 - 1 / (5 * 2 ^ 32)) * of_nat h"
    using a b by (simp add: algebra_simps)
  then show ?thesis using hp by (simp add: pos_divide_le_eq)
qed

lemma ratio_above:
  fixes w h :: nat
  assumes "0 < h" "h < 2 ^ 32" "6 / 5 < (of_nat w / of_nat h :: rat)"
  shows "6 / 5 + 1 / (5 * 2 ^ 32) \<le> (of_nat w / of_nat h :: rat)"
proof -
  have hp: "(0::rat) < of_nat h" using assms(1) by simp
  have "6 * (of_nat h :: rat) < of_nat w * 5"
    using assms(3) hp by (simp add: pos_less_divide_eq)
  then have "(of_nat (6 * h) :: rat) < of_nat (w * 5)" by simp
  then have "6 * h < w * 5" using of_nat_less_iff by blast
  then have "6 * h + 1 \<le> w * 5" by simp
  then have "(of_nat (6 * h + 1) :: rat) \<le> of_nat (w * 5)" using of_nat_le_iff by blast
  then have a: "6 * (of_nat h :: rat) + 1 \<le> of_nat w * 5" by simp
  have "(of_nat h :: rat) < of_nat (2 ^ 32)" using assms(2) of_nat_less_iff by blast
  then have b: "(of_nat h :: rat) \<le> 2 ^ 32" by simp
  have "(6 / 5 + 1 / (5 * 2 ^ 32)) * of_nat h \<le> (of_nat w :: rat)"
    using a b by (simp add: algebra_simps)
  then show ?thesis using hp by (simp add: pos_le_divide_eq)
qed

text \<open>
  C3. The aspect category of the Doubao variant is a function of the ratio
  \<open>imageWidth / imageHeight\<close> alone: a ratio below 0.8 gives the tall category
  \<^verbatim>\<open>'2x3'\<close>, a ratio above 1.2 the wide category \<^verbatim>\<open>'3x2'\<close>, and every other
  ratio, the boundaries 0.8 and 1.2 themselves among them, the square category
  \<^verbatim>\<open>'1x1'\<close>. The ratio here is the exact quotient; the width and the height of an
  image or a canvas are positive integers below \<open>2\<^sup>3\<^sup>2\<close>, and on these the
  comparison of the rounded quotient with the rounded literals decides as the exact
  comparison does.
\<close>

theorem aspect_classification:
  fixes imageWidth imageHeight :: nat
  assumes "0 < imageWidth" "imageWidth < 2 ^ 32" "0 < imageHeight" "imageHeight < 2 ^ 32"
  shows "((of_nat imageWidth / of_nat imageHeight :: rat) < 8 / 10 \<longrightarrow>
            getDoubaoAspectCategory imageWidth imageHeight = Cat2x3) \<and>
         (12 / 10 < (of_nat imageWidth / of_nat imageHeight :: rat) \<longrightarrow>
            getDoubaoAspectCategory imageWidth imageHeight = Cat3x2) \<and>
         (8 / 10 \<le> (of_nat imageWidth / of_nat imageHeight :: rat) \<and>
          (of_nat imageWidth / of_nat imageHeight :: rat) \<le> 12 / 10 \<longrightarrow>
            getDoubaoAspectCategory imageWidth imageHeight = Cat1x1) \<and>
         (\<forall>w h. 0 < h \<and> (of_nat w / of_nat h :: rat) = of_nat imageWidth / of_nat imageHeight \<longrightarrow>
            getDoubaoAspectCategory w h = getDoubaoAspectCategory imageWidth imageHeight)"
proof -
  define r :: rat where "r = of_nat imageWidth / of_nat imageHeight"
  have cat: "getDoubaoAspectCategory imageWidth imageHeight =
     (if fl r < fl (8 / 10) then Cat2x3 else if fl (12 / 10) < fl r then Cat3x2 else Cat1x1)"
    unfolding r_def by (rule getDoubaoAspectCategory_ratio[OF assms(3)])
  have tall: "r < 8 / 10 \<longrightarrow> getDoubaoAspectCategory imageWidth imageHeight = Cat2x3"
  proof
    assume "r < 8 / 10"
    then have "r \<le> 4 / 5 - 1 / (5 * 2 ^ 32)"
      unfolding r_def using ratio_below[OF assms(3) assms(4)] by simp
    then have "fl r \<le> fl (4 / 5 - 1 / (5 * 2 ^ 32))" by (rule fl_mono)
    then have "fl r < fl (8 / 10)" using tall_gap by linarith
    then show "getDoubaoAspectCategory imageWidth imageHeight = Cat2x3" by (simp only: cat if_True)
  qed
  have wide: "12 / 10 < r \<longrightarrow> getDoubaoAspectCategory imageWidth imageHeight = Cat3x2"
  proof
    assume "12 / 10 < r"
    then have "6 / 5 + 1 / (5 * 2 ^ 32) \<le> r"
      unfolding r_def using ratio_above[OF assms(3) assms(4)] by simp
    then have "fl (6 / 5 + 1 / (5 * 2 ^ 32)) \<le> fl r" by (rule fl_mono)
    then have w: "fl (12 / 10) < fl r" using wide_gap by linarith
    then have "\<not> fl r < fl (8 / 10)" using literal_order by linarith
    then show "getDoubaoAspectCategory imageWidth imageHeight = Cat3x2"
      using w by (simp only: cat if_True if_False)
  qed
  have square: "8 / 10 \<le> r \<and> r \<le> 12 / 10 \<longrightarrow>
      getDoubaoAspectCategory imageWidth imageHeight = Cat1x1"
  proof
    assume a: "8 / 10 \<le> r \<and> r \<le> 12 / 10"
    then have "fl (8 / 10) \<le> fl r" "fl r \<le> fl (12 / 10)" by (simp_all add: fl_mono)
    then have "\<not> fl r < fl (8 / 10)" "\<not> fl (12 / 10) < fl r" by linarith+
    then show "getDoubaoAspectCategory imageWidth imageHeight = Cat1x1"
      by (simp only: cat if_False)
  qed
  have pure: "\<forall>w h. 0 < h \<and> (of_nat w / of_nat h :: rat) = r \<longrightarrow>
            getDoubaoAspectCategory w h = getDoubaoAspectCategory imageWidth imageHeight"
  proof (intro allI impI)
    fix w h :: nat
    assume a: "0 < h \<and> (of_nat w / of_nat h :: rat) = r"
    then have "getDoubaoAspectCategory w h =
       (if fl r < fl (8 / 10) then Cat2x3 else if fl (12 / 10) < fl r then Cat3x2 else Cat1x1)"
      using getDoubaoAspectCategory_ratio[of h w] by simp
    then show "getDoubaoAspectCategory w h = getDoubaoAspectCategory imageWidth imageHeight"
      by (simp only: cat)
  qed
  show ?thesis using tall wide square pure unfolding r_def by blast
qed

text \<open>
  Ratios 0.8 and 1.2 exactly, 0.799 and 1.201, and the ratio 0.8 of another image.
\<close>

theorem aspect_classification_witness:
  "(0::nat) < 800 \<and> (800::nat) < 2 ^ 32 \<and> (0::nat) < 1000 \<and> (1000::nat) < 2 ^ 32 \<and>
   (0::nat) < 1200 \<and> (1200::nat) < 2 ^ 32 \<and>
   getDoubaoAspectCategory 800 1000 = Cat1x1 \<and>
   getDoubaoAspectCategory 1200 1000 = Cat1x1 \<and>
   getDoubaoAspectCategory 799 1000 = Cat2x3 \<and>
   getDoubaoAspectCategory 1201 1000 = Cat3x2 \<and>
   getDoubaoAspectCategory 1600 2000 = getDoubaoAspectCategory 800 1000"
proof -
  have p: "(0::nat) < 800" "(800::nat) < 2 ^ 32" "(0::nat) < 1000" "(1000::nat) < 2 ^ 32"
    "(0::nat) < 1200" "(1200::nat) < 2 ^ 32" "(0::nat) < 799" "(799::nat) < 2 ^ 32"
    "(0::nat) < 1201" "(1201::nat) < 2 ^ 32"
    by simp_all
  note a = aspect_classification [OF p(1) p(2) p(3) p(4)]
  note b = aspect_classification [OF p(5) p(6) p(3) p(4)]
  note c = aspect_classification [OF p(7) p(8) p(3) p(4)]
  note d = aspect_classification [OF p(9) p(10) p(3) p(4)]
  have 1: "getDoubaoAspectCategory 800 1000 = Cat1x1"
    using a [THEN conjunct2, THEN conjunct2, THEN conjunct1] by simp
  have 2: "getDoubaoAspectCategory 1200 1000 = Cat1x1"
    using b [THEN conjunct2, THEN conjunct2, THEN conjunct1] by simp
  have 3: "getDoubaoAspectCategory 799 1000 = Cat2x3"
    using c [THEN conjunct1] by simp
  have 4: "getDoubaoAspectCategory 1201 1000 = Cat3x2"
    using d [THEN conjunct2, THEN conjunct1] by simp
  have 5: "getDoubaoAspectCategory 1600 2000 = getDoubaoAspectCategory 800 1000"
    using a [THEN conjunct2, THEN conjunct2, THEN conjunct2, rule_format, of 2000 1600] by simp
  show ?thesis using p 1 2 3 4 5 by simp
qed

section \<open>Doubao: scaling by the shorter edge\<close>

lemma detectWatermarkConfig_doubao:
  "detectWatermarkConfig imageWidth imageHeight WATERMARK_TYPE_DOUBAO =
     \<lparr>type = WATERMARK_TYPE_DOUBAO,
      aspectCategory = Some (getDoubaoAspectCategory imageWidth imageHeight),
      sizeCategory = None,
      width = Math_round (js_mul (of_int (wmWidth (DOUBAO_CONFIGS (getDoubaoAspectCategory imageWidth imageHeight))))
                (js_div (of_nat (min imageWidth imageHeight))
                   (of_int (min (refWidth (DOUBAO_CONFIGS (getDoubaoAspectCategory imageWidth imageHeight)))
                                (refHeight (DOUBAO_CONFIGS (getDoubaoAspectCategory imageWidth imageHeight))))))),
      height = Math_round (js_mul (of_int (wmHeight (DOUBAO_CONFIGS (getDoubaoAspectCategory imageWidth imageHeight))))
                (js_div (of_nat (min imageWidth imageHeight))
                   (of_int (min (refWidth (DOUBAO_CONFIGS (getDoubaoAspectCategory imageWidth imageHeight)))
                                (refHeight (DOUBAO_CONFIGS (getDoubaoAspectCategory imageWidth imageHeight))))))),
      logoSize = None,
      marginRight = Math_round (js_mul (of_int (refMarginRight (DOUBAO_CONFIGS (getDoubaoAspectCategory imageWidth imageHeight))))
                (js_div (of_nat (min imageWidth imageHeight))
                   (of_int (min (refWidth (DOUBAO_CONFIGS (getDoubaoAspectCategory imageWidth imageHeight)))
                                (refHeight (DOUBAO_CONFIGS (getDoubaoAspectCategory imageWidth imageHeight))))))),
      marginBottom = Math_round (js_mul (of_int (refMarginBottom (DOUBAO_CONFIGS (getDoubaoAspectCategory imageWidth imageHeight))))
                (js_div (of_nat (min imageWidth imageHeight))
                   (of_int (min (refWidth (DOUBAO_CONFIGS (getDoubaoAspectCategory imageWidth imageHeight)))
                                (refHeight (DOUBAO_CONFIGS (getDoubaoAspectCategory imageWidth imageHeight))))))),
      sourceTemplate = None,
      refConfig = Some (DOUBAO_CONFIGS (getDoubaoAspectCategory imageWidth imageHeight))\<rparr>"
  by (simp add: detectWatermarkConfig_def Let_def)

lemma detectWatermarkConfig_gemini:
  "watermarkType \<noteq> WATERMARK_TYPE_DOUBAO \<Longrightarrow>
     detectWatermarkConfig imageWidth imageHeight watermarkType =
       calculateGeminiConfig imageWidth imageHeight"
  by (simp add: detectWatermarkConfig_def)

subsection \<open>Rounding error and exact values\<close>

lemma roundTiesToEven_of_int: "roundTiesToEven (of_int n) = n"
  by (simp add: roundTiesToEven_def)

lemma roundTiesToEven_error: "\<bar>of_int (roundTiesToEven z) - z\<bar> \<le> 1 / 2"
proof -
  have "of_int \<lfloor>z\<rfloor> \<le> z" "z < of_int \<lfloor>z\<rfloor> + 1" by linarith+
  then show ?thesis
    by (auto simp add: roundTiesToEven_def Let_def abs_le_iff)
qed

lemma fl_pos_exact:
  assumes "0 < n" "n < 2 ^ 53"
  shows "fl_pos (of_int n * 2 powi j) = of_int n * 2 powi j"
proof -
  define a :: rat where "a = of_int n * 2 powi j"
  have apos: "0 < a" using assms(1) by (simp add: a_def)
  define e where "e = binade a"
  have "(of_int n :: rat) < of_int (2 ^ 53)" using assms(2) of_int_less_iff by blast
  then have "(of_int n :: rat) < 2 powi 53" by simp
  then have "a < 2 powi 53 * 2 powi j" unfolding a_def by (simp add: mult_strict_right_mono)
  then have "a < 2 powi (53 + j)" by (simp add: power_int_add)
  then have "(2::rat) powi e < 2 powi (53 + j)"
    using binade_bounds(1)[OF apos] unfolding e_def by linarith
  then have "e < 53 + j" by (rule two_powi_less_D)
  then have d: "0 \<le> j - e + 52" by simp
  define d where "d = nat (j - e + 52)"
  have jd: "j - (e - 52) = int d" using d by (simp add: d_def)
  have "a / 2 powi (e - 52) = of_int n * 2 powi (j - (e - 52))"
    unfolding a_def by (simp add: power_int_diff)
  also have "\<dots> = of_int n * 2 ^ d" unfolding jd by simp
  also have "\<dots> = of_int (n * 2 ^ d)" by simp
  finally have z: "a / 2 powi (e - 52) = of_int (n * 2 ^ nat (j - e + 52))"
    unfolding d_def .
  have "fl_pos a = of_int (n * 2 ^ nat (j - e + 52)) * 2 powi (e - 52)"
    unfolding fl_pos_def Let_def e_def[symmetric] z roundTiesToEven_of_int ..
  also have "\<dots> = a * (2 powi (e - 52) / 2 powi (e - 52))"
    unfolding z[symmetric] by simp
  also have "\<dots> = a" by simp
  finally show ?thesis unfolding a_def .
qed

lemma fl_exact_dyadic:
  assumes "0 \<le> n" "n < 2 ^ 53"
  shows "fl (of_int n / 2 ^ j) = of_int n / 2 ^ j"
proof (cases "n = 0")
  case True
  then show ?thesis by (simp add: fl_def)
next
  case False
  then have n: "0 < n" using assms(1) by simp
  have eq: "(of_int n :: rat) / 2 ^ j = of_int n * 2 powi (- int j)"
    by (simp add: power_int_minus field_simps)
  have "0 < (of_int n :: rat) / 2 ^ j" using n by simp
  then show ?thesis
    using fl_pos_exact[OF n assms(2), of "- int j"] unfolding eq[symmetric]
    by (simp add: fl_def)
qed

lemma fl_error:
  assumes "0 \<le> a"
  shows "\<bar>fl a - a\<bar> \<le> a / 2 ^ 53"
proof (cases "a = 0")
  case True
  then show ?thesis by (simp add: fl_def)
next
  case False
  then have apos: "0 < a" using assms by simp
  define u :: rat where "u = 2 powi (binade a - 52)"
  have u: "0 < u" by (simp add: u_def)
  have "fl a - a = (of_int (roundTiesToEven (a / u)) - a / u) * u"
    using apos u by (simp add: fl_def fl_pos_def Let_def u_def[symmetric] field_simps)
  then have "\<bar>fl a - a\<bar> = \<bar>of_int (roundTiesToEven (a / u)) - a / u\<bar> * u"
    using u by (simp add: abs_mult)
  also have "\<dots> \<le> 1 / 2 * u"
    using roundTiesToEven_error[of "a / u"] u by (simp add: mult_right_mono)
  also have "\<dots> = 2 powi binade a / 2 ^ 53"
    unfolding u_def by (simp add: power_int_diff)
  also have "\<dots> \<le> a / 2 ^ 53"
    using binade_bounds(1)[OF apos] by (simp add: divide_right_mono)
  finally show ?thesis .
qed

lemma scaled_round_2048:
  fixes k s :: nat
  assumes "k \<le> 1024" "s < 2 ^ 32"
  shows "js_mul (of_nat k) (js_div (of_nat s) 2048) = of_nat k * (of_nat s / 2048)"
proof -
  have s: "int s < 2 ^ 53" using assms(2) by simp
  have "k * s \<le> 1024 * s" using assms(1) by simp
  also have "\<dots> < 1024 * 2 ^ 32" using assms(2) by simp
  finally have "k * s < 2 ^ 53" by simp
  then have ks: "int (k * s) < 2 ^ 53" by (metis of_nat_less_iff of_nat_numeral of_nat_power)
  have q: "fl (of_nat s / 2048) = of_nat s / 2048"
    using fl_exact_dyadic[of "int s" 11] s by simp
  have "fl (of_nat k * (of_nat s / 2048)) = of_nat k * (of_nat s / 2048)"
    using fl_exact_dyadic[of "int (k * s)" 11] ks by simp
  then show ?thesis unfolding js_mul_def js_div_def q .
qed

lemma scaled_round_1672:
  fixes k s :: nat
  assumes "k \<le> 296" "coprime 209 k" "s < 2 ^ 32"
  shows "Math_round (js_mul (of_nat k) (js_div (of_nat s) 1672)) =
         Math_round (of_nat k * (of_nat s / 1672))"
proof (cases "209 dvd s")
  case True
  then obtain t where t: "s = 209 * t" by (auto simp: dvd_def)
  have tb: "int t < 2 ^ 53" using assms(3) t by simp
  have "k * t \<le> 296 * t" using assms(1) by simp
  also have "\<dots> < 296 * 2 ^ 32" using assms(3) t by simp
  finally have "k * t < 2 ^ 53" by simp
  then have kt: "int (k * t) < 2 ^ 53" by (metis of_nat_less_iff of_nat_numeral of_nat_power)
  have qe: "(of_nat s :: rat) / 1672 = of_nat t / 2 ^ 3" by (simp add: t)
  have q: "fl (of_nat t / 2 ^ 3) = of_nat t / 2 ^ 3"
    using fl_exact_dyadic[of "int t" 3] tb by simp
  have p: "fl (of_nat k * (of_nat t / 2 ^ 3)) = of_nat k * (of_nat t / 2 ^ 3)"
    using fl_exact_dyadic[of "int (k * t)" 3] kt by simp
  show ?thesis unfolding js_mul_def js_div_def qe q p by (rule refl)
next
  case False
  define q :: rat where "q = of_nat s / 1672"
  define v :: rat where "v = of_nat k * q"
  define p :: rat where "p = of_nat k * fl q"
  have q0: "0 \<le> q" by (simp add: q_def)
  have v0: "0 \<le> v" using q0 by (simp add: v_def)
  have fq0: "0 \<le> fl q" using q0 by (rule fl_nonneg)
  have p0: "0 \<le> p" using fq0 by (simp add: p_def)
  define eps :: rat where "eps = 1 / 2 ^ 53"
  have eps: "0 < eps" by (simp add: eps_def)
  have e1: "\<bar>fl q - q\<bar> \<le> q * eps" using fl_error[OF q0] by (simp add: eps_def)
  have "\<bar>p - v\<bar> = of_nat k * \<bar>fl q - q\<bar>"
    unfolding p_def v_def by (simp add: abs_mult flip: right_diff_distrib)
  also have "\<dots> \<le> of_nat k * (q * eps)" using e1 by (intro mult_left_mono) simp_all
  also have "\<dots> = v * eps" by (simp add: v_def)
  finally have e2: "\<bar>p - v\<bar> \<le> v * eps" .
  have e3: "\<bar>fl p - p\<bar> \<le> p * eps" using fl_error[OF p0] by (simp add: eps_def)
  have "v * eps \<le> v * 1" using v0 by (intro mult_left_mono) (simp_all add: eps_def)
  then have "p \<le> 2 * v" using e2 by linarith
  then have "p * eps \<le> (2 * v) * eps" using eps by (intro mult_right_mono) simp_all
  then have e4: "\<bar>fl p - v\<bar> \<le> 3 * (v * eps)" using e2 e3 by linarith
  have "k * s \<le> 296 * s" using assms(1) by simp
  also have "\<dots> < 296 * 2 ^ 32" using assms(3) by simp
  finally have "k * s < 296 * 2 ^ 32" .
  then have "(of_nat (k * s) :: rat) < of_nat (296 * 2 ^ 32)" using of_nat_less_iff by blast
  then have "(of_nat k :: rat) * of_nat s < 296 * 2 ^ 32" by simp
  then have "of_nat k * of_nat s / 1672 < (296 * 2 ^ 32 / 1672 :: rat)"
    by (rule divide_strict_right_mono) simp
  also have "\<dots> < 2 ^ 30" by simp
  finally have vb: "v < 2 ^ 30" by (simp add: v_def q_def)
  have err: "\<bar>fl p - v\<bar> < 1 / 1672"
  proof -
    have "v * eps \<le> 2 ^ 30 * eps" using vb eps by (intro mult_right_mono) simp_all
    also have "\<dots> = 1 / 8388608" by (simp add: eps_def)
    finally have "v * eps \<le> 1 / 8388608" .
    then have "3 * (v * eps) \<le> 3 / 8388608" by linarith
    also have "\<dots> < (1 / 1672 :: rat)" by simp
    finally show ?thesis using e4 by linarith
  qed
  define N where "N = k * s + 836"
  define m where "m = N div 1672"
  define r where "r = N mod 1672"
  have "r \<noteq> 0"
  proof
    assume "r = 0"
    then have "1672 dvd k * s + 836" by (simp add: r_def N_def mod_eq_0_iff_dvd)
    moreover have "(209::nat) dvd 1672" by simp
    ultimately have "209 dvd k * s + 836" using dvd_trans by blast
    moreover have "(209::nat) dvd 836" by simp
    ultimately have "209 dvd k * s" by (simp add: dvd_add_left_iff)
    then have "209 dvd s" using coprime_dvd_mult_right_iff[OF assms(2), of s] by simp
    with False show False by simp
  qed
  then have "0 < r" by simp
  moreover have "r < 1672" by (simp add: r_def)
  ultimately have "(of_nat 1 :: rat) \<le> of_nat r" "(of_nat r :: rat) \<le> of_nat 1671"
    unfolding of_nat_le_iff by simp_all
  then have rb: "(1::rat) \<le> of_nat r" "(of_nat r :: rat) \<le> 1671" by simp_all
  have "N = 1672 * m + r" by (simp add: m_def r_def)
  then have "(of_nat N :: rat) = of_nat (1672 * m + r)" by simp
  then have nn: "(of_nat N :: rat) = 1672 * of_nat m + of_nat r" by simp
  have "v + 1 / 2 = of_nat N / 1672" by (simp add: v_def q_def N_def field_simps)
  then have vh: "v + 1 / 2 = of_nat m + of_nat r / 1672" unfolding nn by simp
  have "(1 / 1672 :: rat) \<le> of_nat r / 1672" "(of_nat r :: rat) / 1672 \<le> 1671 / 1672"
    using rb by (simp_all add: divide_right_mono)
  then have lo: "of_nat m + 1 / 1672 \<le> v + 1 / 2" and hi: "v + 1 / 2 \<le> of_nat m + 1671 / 1672"
    unfolding vh by simp_all
  have l2: "(of_nat m :: rat) < fl p + 1 / 2" and h2: "fl p + 1 / 2 < of_nat m + 1"
    using lo hi err by linarith+
  have "\<lfloor>v + 1 / 2\<rfloor> = int m" using lo hi by (simp add: floor_eq_iff)
  moreover have "\<lfloor>fl p + 1 / 2\<rfloor> = int m" using l2 h2 by (simp add: floor_eq_iff)
  ultimately show ?thesis
    unfolding Math_round_def js_mul_def js_div_def q_def[symmetric] p_def[symmetric] v_def[symmetric]
    by simp
qed

subsection \<open>The four quantities\<close>

lemma category_square_1024: "getDoubaoAspectCategory 1024 1024 = Cat1x1"
proof -
  have "fl (8 / 10) \<le> fl 1" "fl 1 \<le> fl (12 / 10)" by (simp_all add: fl_mono)
  then show ?thesis by (simp add: getDoubaoAspectCategory_ratio)
qed

lemma coprime_209:
  "coprime (209::nat) 225" "coprime (209::nat) 43" "coprime (209::nat) 50"
  "coprime (209::nat) 296" "coprime (209::nat) 71" "coprime (209::nat) 53"
  by (simp_all add: coprime_iff_gcd_eq_1 gcd_non_0_nat)

lemma scaled_2048:
  fixes s :: nat
  assumes "s < 2 ^ 32"
  shows "js_mul 282 (js_div (of_nat s) 2048) = 282 * (of_nat s / 2048)"
    "js_mul 123 (js_div (of_nat s) 2048) = 123 * (of_nat s / 2048)"
    "js_mul 57 (js_div (of_nat s) 2048) = 57 * (of_nat s / 2048)"
    "js_mul 54 (js_div (of_nat s) 2048) = 54 * (of_nat s / 2048)"
  using scaled_round_2048[of 282 s] scaled_round_2048[of 123 s] scaled_round_2048[of 57 s]
    scaled_round_2048[of 54 s] assms
  by simp_all

lemma scaled_1672:
  fixes s :: nat
  assumes "s < 2 ^ 32"
  shows "Math_round (js_mul 225 (js_div (of_nat s) 1672)) = Math_round (225 * (of_nat s / 1672))"
    "Math_round (js_mul 43 (js_div (of_nat s) 1672)) = Math_round (43 * (of_nat s / 1672))"
    "Math_round (js_mul 50 (js_div (of_nat s) 1672)) = Math_round (50 * (of_nat s / 1672))"
    "Math_round (js_mul 296 (js_div (of_nat s) 1672)) = Math_round (296 * (of_nat s / 1672))"
    "Math_round (js_mul 71 (js_div (of_nat s) 1672)) = Math_round (71 * (of_nat s / 1672))"
    "Math_round (js_mul 53 (js_div (of_nat s) 1672)) = Math_round (53 * (of_nat s / 1672))"
  using scaled_round_1672[OF _ coprime_209(1) assms] scaled_round_1672[OF _ coprime_209(2) assms]
    scaled_round_1672[OF _ coprime_209(3) assms] scaled_round_1672[OF _ coprime_209(4) assms]
    scaled_round_1672[OF _ coprime_209(5) assms] scaled_round_1672[OF _ coprime_209(6) assms]
  by simp_all

text \<open>
  C4. For the Doubao variant the resolver scales each of the four measured quantities
  of the reference configuration of the selected category (watermark width and
  height, right and bottom margin) by the one factor
  \<open>min imageWidth imageHeight / min refWidth refHeight\<close>, the ratio of the shorter
  edges, and rounds each product to the nearest integer. Factor and products are
  the exact ones here: for image dimensions below \<open>2\<^sup>3\<^sup>2\<close> the binary64 quotient and
  products of the source round to the same integers.
\<close>

theorem doubao_short_edge_scaling:
  fixes imageWidth imageHeight :: nat
  assumes "imageWidth < 2 ^ 32" "imageHeight < 2 ^ 32"
  defines "cfg \<equiv> detectWatermarkConfig imageWidth imageHeight WATERMARK_TYPE_DOUBAO"
    and "ref \<equiv> DOUBAO_CONFIGS (getDoubaoAspectCategory imageWidth imageHeight)"
  defines "factor \<equiv> (of_nat (min imageWidth imageHeight) / of_int (min (refWidth ref) (refHeight ref)) :: rat)"
  shows "width cfg = Math_round (of_int (wmWidth ref) * factor) \<and>
         height cfg = Math_round (of_int (wmHeight ref) * factor) \<and>
         marginRight cfg = Math_round (of_int (refMarginRight ref) * factor) \<and>
         marginBottom cfg = Math_round (of_int (refMarginBottom ref) * factor)"
proof -
  define s where "s = min imageWidth imageHeight"
  have s: "s < 2 ^ 32" using assms(1) by (simp add: s_def min_def)
  note cfg = cfg_def[unfolded detectWatermarkConfig_doubao, folded s_def]
  show ?thesis
  proof (cases "getDoubaoAspectCategory imageWidth imageHeight")
    case Cat1x1
    show ?thesis
      unfolding cfg factor_def ref_def s_def[symmetric] Cat1x1
      by (simp add: scaled_2048[OF s])
  next
    case Cat2x3
    show ?thesis
      unfolding cfg factor_def ref_def s_def[symmetric] Cat2x3
      by (simp add: scaled_1672[OF s])
  next
    case Cat3x2
    show ?thesis
      unfolding cfg factor_def ref_def s_def[symmetric] Cat3x2
      by (simp add: scaled_1672[OF s])
  qed
qed

lemma half_rounds:
  "Math_round 141 = 141" "Math_round (123 / 2) = 62"
  "Math_round (57 / 2) = 29" "Math_round 27 = 27"
  by code_simp+

text \<open>
  A square image of 1024 pixels has the factor one half: 141 by 62, margins 29 and 27.
\<close>

theorem doubao_short_edge_scaling_witness:
  "(1024::nat) < 2 ^ 32 \<and>
   width (detectWatermarkConfig 1024 1024 WATERMARK_TYPE_DOUBAO) = 141 \<and>
   height (detectWatermarkConfig 1024 1024 WATERMARK_TYPE_DOUBAO) = 62 \<and>
   marginRight (detectWatermarkConfig 1024 1024 WATERMARK_TYPE_DOUBAO) = 29 \<and>
   marginBottom (detectWatermarkConfig 1024 1024 WATERMARK_TYPE_DOUBAO) = 27"
proof -
  have b: "(1024::nat) < 2 ^ 32" by simp
  show ?thesis
    using doubao_short_edge_scaling [OF b b] b
    unfolding category_square_1024
    by (simp add: half_rounds)
qed

section \<open>Decimal text is injective\<close>

lemma digit_char_cases:
  assumes "(d::nat) < 10"
  shows "d = 0 \<or> d = 1 \<or> d = 2 \<or> d = 3 \<or> d = 4 \<or> d = 5 \<or> d = 6 \<or> d = 7 \<or> d = 8 \<or> d = 9"
  using assms by arith

lemma digit_char_inj:
  assumes "d < 10" "e < 10" "digit_char d = digit_char e"
  shows "d = e"
  using digit_char_cases[OF assms(1)] digit_char_cases[OF assms(2)] assms(3)
  by (auto simp add: digit_char_def)

lemma digit_char_not_sep:
  assumes "d < 10"
  shows "digit_char d \<noteq> CHR ''x''" and "digit_char d \<noteq> CHR ''-''"
  using digit_char_cases[OF assms] by (auto simp add: digit_char_def)

lemma nat_toString_unfold:
  "nat_toString n =
     (if n < 10 then [digit_char n] else nat_toString (n div 10) @ [digit_char (n mod 10)])"
  by (rule nat_toString.simps)

declare nat_toString.simps [simp del]

lemma nat_toString_not_Nil: "nat_toString n \<noteq> []"
  by (subst nat_toString_unfold) simp

lemma nat_toString_chars:
  "c \<in> set (nat_toString n) \<Longrightarrow> c \<noteq> CHR ''x'' \<and> c \<noteq> CHR ''-''"
proof (induction n rule: nat_toString.induct)
  case (1 n)
  show ?case
  proof (cases "n < 10")
    case True
    then show ?thesis using "1.prems" digit_char_not_sep[of n]
      by (subst (asm) nat_toString_unfold) auto
  next
    case False
    have "n mod 10 < 10" by simp
    then show ?thesis using "1.prems" "1.IH"[OF False] digit_char_not_sep[of "n mod 10"] False
      by (subst (asm) nat_toString_unfold) auto
  qed
qed

lemma nat_toString_inj: "nat_toString n = nat_toString m \<Longrightarrow> n = m"
proof (induction n arbitrary: m rule: nat_toString.induct)
  case (1 n)
  show ?case
  proof (cases "n < 10")
    case True
    note n = True
    show ?thesis
    proof (cases "m < 10")
      case True
      then show ?thesis using "1.prems" n digit_char_inj[of n m]
        by (simp add: nat_toString_unfold[of n] nat_toString_unfold[of m])
    next
      case False
      have "nat_toString (m div 10) \<noteq> []" by (rule nat_toString_not_Nil)
      then show ?thesis using "1.prems" n False
        by (simp add: nat_toString_unfold[of n] nat_toString_unfold[of m] Cons_eq_append_conv)
    qed
  next
    case False
    note n = False
    show ?thesis
    proof (cases "m < 10")
      case True
      have "nat_toString (n div 10) \<noteq> []" by (rule nat_toString_not_Nil)
      then show ?thesis using "1.prems" n True
        by (simp add: nat_toString_unfold[of n] nat_toString_unfold[of m] append_eq_Cons_conv)
    next
      case False
      from "1.prems" n False
      have eq: "nat_toString (n div 10) = nat_toString (m div 10)"
        and d: "digit_char (n mod 10) = digit_char (m mod 10)"
        by (simp_all add: nat_toString_unfold[of n] nat_toString_unfold[of m])
      have "n div 10 = m div 10" using "1.IH"[OF n eq] .
      moreover have "n mod 10 = m mod 10" using digit_char_inj[OF _ _ d] by simp
      ultimately show ?thesis by (metis div_mult_mod_eq)
    qed
  qed
qed

lemma js_toString_chars: "CHR ''x'' \<notin> set (js_toString i)"
  using nat_toString_chars by (auto simp add: js_toString_def)

lemma js_toString_inj: "js_toString i = js_toString j \<Longrightarrow> i = j"
proof -
  assume eq: "js_toString i = js_toString j"
  have hd: "hd (nat_toString k) \<noteq> CHR ''-''" for k
    using nat_toString_chars[of "hd (nat_toString k)" k] nat_toString_not_Nil[of k] by simp
  show ?thesis
  proof (cases "i < 0")
    case True
    note i = True
    show ?thesis
    proof (cases "j < 0")
      case True
      then have "nat (- i) = nat (- j)" using eq i nat_toString_inj by (simp add: js_toString_def)
      then show ?thesis using i True by simp
    next
      case False
      then have "CHR ''-'' # nat_toString (nat (- i)) = nat_toString (nat j)"
        using eq i by (simp add: js_toString_def)
      then have "hd (nat_toString (nat j)) = CHR ''-''" by (metis list.sel(1))
      then show ?thesis using hd by blast
    qed
  next
    case False
    note i = False
    show ?thesis
    proof (cases "j < 0")
      case True
      then have "nat_toString (nat i) = CHR ''-'' # nat_toString (nat (- j))"
        using eq i by (simp add: js_toString_def)
      then have "hd (nat_toString (nat i)) = CHR ''-''" by (metis list.sel(1))
      then show ?thesis using hd by blast
    next
      case False
      then have "nat i = nat j" using eq i nat_toString_inj by (simp add: js_toString_def)
      then show ?thesis using i False by simp
    qed
  qed
qed

lemma split_at_separator:
  assumes "xs @ c # ys = xs' @ c # ys'" "c \<notin> set xs" "c \<notin> set xs'"
  shows "xs = xs' \<and> ys = ys'"
  using assms
proof (induction xs arbitrary: xs')
  case Nil
  then show ?case by (cases xs') auto
next
  case (Cons a xs)
  then show ?case by (cases xs') auto
qed

lemma dims_text_inj:
  assumes "js_toString w @ ''x'' @ js_toString h = js_toString w' @ ''x'' @ js_toString h'"
  shows "w = w' \<and> h = h'"
proof -
  have "js_toString w @ CHR ''x'' # js_toString h = js_toString w' @ CHR ''x'' # js_toString h'"
    using assms by simp
  from split_at_separator[OF this js_toString_chars js_toString_chars]
  show ?thesis using js_toString_inj by blast
qed

section \<open>The cache key determines template and size\<close>

subsection \<open>Configurations of the detector\<close>

lemma calculateGeminiConfig_shape:
  "\<exists>s. type (calculateGeminiConfig w h) = ''gemini'' \<and>
       aspectCategory (calculateGeminiConfig w h) = None \<and>
       sizeCategory (calculateGeminiConfig w h) = Some s \<and>
       logoSize (calculateGeminiConfig w h) = Some (width (calculateGeminiConfig w h)) \<and>
       sourceTemplate (calculateGeminiConfig w h) = Some (if s = Small then T48 else T96)"
  by (simp add: calculateGeminiConfig_def Let_def WATERMARK_TYPE_GEMINI_def)

lemma detectWatermarkConfig_shape:
  "(\<exists>a. type (detectWatermarkConfig w h t) = ''doubao'' \<and>
        aspectCategory (detectWatermarkConfig w h t) = Some a) \<or>
   (\<exists>s. type (detectWatermarkConfig w h t) = ''gemini'' \<and>
        aspectCategory (detectWatermarkConfig w h t) = None \<and>
        sizeCategory (detectWatermarkConfig w h t) = Some s \<and>
        logoSize (detectWatermarkConfig w h t) = Some (width (detectWatermarkConfig w h t)) \<and>
        sourceTemplate (detectWatermarkConfig w h t) = Some (if s = Small then T48 else T96))"
proof (cases "t = WATERMARK_TYPE_DOUBAO")
  case True
  show ?thesis
    unfolding True detectWatermarkConfig_doubao by (simp add: WATERMARK_TYPE_DOUBAO_def)
next
  case False
  then show ?thesis
    using calculateGeminiConfig_shape[of w h] by (simp add: detectWatermarkConfig_gemini)
qed

lemma aspect_key_inj:
  assumes "aspect_str a @ ''_'' @ r = aspect_str a' @ ''_'' @ r'"
  shows "a = a' \<and> r = r'"
  using assms by (cases a; cases a') simp_all

lemma size_key_inj:
  assumes "size_str s @ ''_'' @ r = size_str s' @ ''_'' @ r'"
  shows "s = s' \<and> r = r'"
  using assms by (cases s; cases s') simp_all

lemma cacheKey_doubao:
  "type c = ''doubao'' \<Longrightarrow> aspectCategory c = Some a \<Longrightarrow>
     cacheKey c = ''doubao_'' @ aspect_str a @ ''_'' @ (js_toString (width c) @ ''x'' @ js_toString (height c))"
  by (simp add: cacheKey_def)

lemma cacheKey_gemini:
  "type c = ''gemini'' \<Longrightarrow> aspectCategory c = None \<Longrightarrow> sizeCategory c = Some s \<Longrightarrow>
     cacheKey c = ''gemini_'' @ size_str s @ ''_'' @ (js_toString (width c) @ ''x'' @ js_toString (height c))"
  by (simp add: cacheKey_def)

lemma same_key_same_source:
  assumes "cacheKey (detectWatermarkConfig w h t) = cacheKey (detectWatermarkConfig w' h' t')"
  shows "selectTemplate captures (detectWatermarkConfig w h t) =
           selectTemplate captures (detectWatermarkConfig w' h' t') \<and>
         width (detectWatermarkConfig w h t) = width (detectWatermarkConfig w' h' t') \<and>
         height (detectWatermarkConfig w h t) = height (detectWatermarkConfig w' h' t')"
proof -
  define c where "c = detectWatermarkConfig w h t"
  define c' where "c' = detectWatermarkConfig w' h' t'"
  have key: "cacheKey c = cacheKey c'" using assms by (simp add: c_def c'_def)
  consider
    (dd) a a' where "type c = ''doubao''" "aspectCategory c = Some a"
                    "type c' = ''doubao''" "aspectCategory c' = Some a'"
  | (gg) s s' where "type c = ''gemini''" "aspectCategory c = None" "sizeCategory c = Some s"
                    "logoSize c = Some (width c)"
                    "sourceTemplate c = Some (if s = Small then T48 else T96)"
                    "type c' = ''gemini''" "aspectCategory c' = None" "sizeCategory c' = Some s'"
                    "logoSize c' = Some (width c')"
                    "sourceTemplate c' = Some (if s' = Small then T48 else T96)"
  | (dg) a s' where "type c = ''doubao''" "aspectCategory c = Some a"
                    "type c' = ''gemini''" "aspectCategory c' = None" "sizeCategory c' = Some s'"
  | (gd) s a' where "type c = ''gemini''" "aspectCategory c = None" "sizeCategory c = Some s"
                    "type c' = ''doubao''" "aspectCategory c' = Some a'"
    using detectWatermarkConfig_shape[of w h t] detectWatermarkConfig_shape[of w' h' t']
    unfolding c_def c'_def by blast
  then have "selectTemplate captures c = selectTemplate captures c' \<and>
             width c = width c' \<and> height c = height c'"
  proof cases
    case dd
    from key have "aspect_str a @ ''_'' @ (js_toString (width c) @ ''x'' @ js_toString (height c)) =
        aspect_str a' @ ''_'' @ (js_toString (width c') @ ''x'' @ js_toString (height c'))"
      unfolding cacheKey_doubao[OF dd(1,2)] cacheKey_doubao[OF dd(3,4)] by simp
    from aspect_key_inj[OF this] have a: "a = a'"
      and d: "js_toString (width c) @ ''x'' @ js_toString (height c) =
              js_toString (width c') @ ''x'' @ js_toString (height c')"
      by simp_all
    from dims_text_inj[OF d] show ?thesis
      using dd a by (simp add: selectTemplate_def WATERMARK_TYPE_DOUBAO_def)
  next
    case gg
    from key have "size_str s @ ''_'' @ (js_toString (width c) @ ''x'' @ js_toString (height c)) =
        size_str s' @ ''_'' @ (js_toString (width c') @ ''x'' @ js_toString (height c'))"
      unfolding cacheKey_gemini[OF gg(1,2,3)] cacheKey_gemini[OF gg(6,7,8)] by simp
    from size_key_inj[OF this] have s: "s = s'"
      and d: "js_toString (width c) @ ''x'' @ js_toString (height c) =
              js_toString (width c') @ ''x'' @ js_toString (height c')"
      by simp_all
    from dims_text_inj[OF d] show ?thesis
      using gg s by (simp add: selectTemplate_def WATERMARK_TYPE_DOUBAO_def)
  next
    case dg
    from key show ?thesis
      unfolding cacheKey_doubao[OF dg(1,2)] cacheKey_gemini[OF dg(3,4,5)] by simp
  next
    case gd
    from key show ?thesis
      unfolding cacheKey_gemini[OF gd(1,2,3)] cacheKey_doubao[OF gd(4,5)] by simp
  qed
  then show ?thesis by (simp add: c_def c'_def)
qed

text \<open>
  C10. Two configurations of the detector with the same cache key select the same
  source template with the same source size, and have the same target width and
  height; a hit in the cache of \<^verbatim>\<open>getAlphaMap\<close> therefore never returns an alpha map
  derived from another template or for another size than the requested configuration
  asks for.
\<close>

theorem cache_key_sound:
  assumes "cacheKey (detectWatermarkConfig w h t) = cacheKey (detectWatermarkConfig w' h' t')"
  shows "selectTemplate captures (detectWatermarkConfig w h t) =
           selectTemplate captures (detectWatermarkConfig w' h' t') \<and>
         width (detectWatermarkConfig w h t) = width (detectWatermarkConfig w' h' t') \<and>
         height (detectWatermarkConfig w h t) = height (detectWatermarkConfig w' h' t')"
  using assms by (rule same_key_same_source)

lemma small_configs_equal:
  "detectWatermarkConfig 40 40 ''gemini'' = detectWatermarkConfig 1000 600 ''unknown''"
  by (simp add: detectWatermarkConfig_def calculateGeminiConfig_def GEMINI_SCALING_def
      WATERMARK_TYPE_DOUBAO_def)

text \<open>
  Two small images, asked for with different type names, share the key.
\<close>

theorem cache_key_sound_witness:
  "cacheKey (detectWatermarkConfig 40 40 ''gemini'') =
     cacheKey (detectWatermarkConfig 1000 600 ''unknown'') \<and>
   selectTemplate exampleCaptures (detectWatermarkConfig 40 40 ''gemini'') =
     selectTemplate exampleCaptures (detectWatermarkConfig 1000 600 ''unknown'') \<and>
   width (detectWatermarkConfig 40 40 ''gemini'') =
     width (detectWatermarkConfig 1000 600 ''unknown'')"
proof -
  have k: "cacheKey (detectWatermarkConfig 40 40 ''gemini'') =
     cacheKey (detectWatermarkConfig 1000 600 ''unknown'')"
    by (simp only: small_configs_equal)
  from cache_key_sound [OF k, of exampleCaptures] k show ?thesis by simp
qed

subsection \<open>The cache stays sound\<close>

text \<open>
  So a cache that holds nothing but entries stored by \<^verbatim>\<open>getAlphaMap\<close> for
  configurations of the detector answers every such configuration with the alpha map
  derived from its own template and for its own size, on a hit as on a miss.
\<close>

lemma cacheSound_fresh: "cacheSound derive (WatermarkEngine captures)"
  by (simp add: cacheSound_def WatermarkEngine_def)

lemma getAlphaMap_sound:
  assumes "cacheSound derive eng"
    and "getAlphaMap derive eng (detectWatermarkConfig w h t) = Inr (alphaMap, eng')"
  shows "(case selectTemplate (bgCaptures eng) (detectWatermarkConfig w h t) of
           (bgImage, srcWidth, srcHeight) \<Rightarrow>
             derive bgImage srcWidth srcHeight
               (width (detectWatermarkConfig w h t)) (height (detectWatermarkConfig w h t))
             = Inr alphaMap)"
    and "cacheSound derive eng'"
    and "bgCaptures eng' = bgCaptures eng"
proof -
  define c where "c = detectWatermarkConfig w h t"
  show hit: "(case selectTemplate (bgCaptures eng) (detectWatermarkConfig w h t) of
           (bgImage, srcWidth, srcHeight) \<Rightarrow>
             derive bgImage srcWidth srcHeight
               (width (detectWatermarkConfig w h t)) (height (detectWatermarkConfig w h t))
             = Inr alphaMap)"
  proof (cases "alphaMaps eng (cacheKey c)")
    case None
    then show ?thesis using assms(2) unfolding c_def[symmetric]
      by (auto simp add: getAlphaMap_def split: prod.splits sum.splits)
  next
    case (Some cached)
    then have "alphaMap = cached" using assms(2) unfolding c_def[symmetric]
      by (simp add: getAlphaMap_def)
    then show ?thesis
      using assms(1)[unfolded cacheSound_def, rule_format, OF Some[unfolded c_def]] by simp
  qed
  show caps: "bgCaptures eng' = bgCaptures eng"
    using assms(2) by (auto simp add: getAlphaMap_def split: option.splits prod.splits sum.splits)
  show "cacheSound derive eng'"
  proof (cases "alphaMaps eng (cacheKey c)")
    case (Some cached)
    then have "eng' = eng" using assms(2) unfolding c_def[symmetric]
      by (simp add: getAlphaMap_def)
    then show ?thesis using assms(1) by simp
  next
    case None
    then have e: "alphaMaps eng' = (alphaMaps eng)(cacheKey c \<mapsto> alphaMap)"
      using assms(2) unfolding c_def[symmetric]
      by (auto simp add: getAlphaMap_def split: prod.splits sum.splits)
    show ?thesis
      unfolding cacheSound_def
    proof (intro allI impI)
      fix w2 h2 t2 cached
      define c2 where "c2 = detectWatermarkConfig w2 h2 t2"
      assume a: "alphaMaps eng' (cacheKey (detectWatermarkConfig w2 h2 t2)) = Some cached"
      show "case selectTemplate (bgCaptures eng') (detectWatermarkConfig w2 h2 t2) of
            (bgImage, srcWidth, srcHeight) \<Rightarrow>
              derive bgImage srcWidth srcHeight (width (detectWatermarkConfig w2 h2 t2))
                (height (detectWatermarkConfig w2 h2 t2)) = Inr cached"
      proof (cases "cacheKey c2 = cacheKey c")
        case True
        then have "cached = alphaMap" using a e by (simp add: c2_def)
        moreover have "selectTemplate (bgCaptures eng) c2 = selectTemplate (bgCaptures eng) c \<and>
            width c2 = width c \<and> height c2 = height c"
          using same_key_same_source[OF True[unfolded c_def c2_def]] unfolding c_def c2_def by blast
        ultimately show ?thesis using hit caps unfolding c_def c2_def by simp
      next
        case False
        then have "alphaMaps eng (cacheKey c2) = Some cached" using a e by (simp add: c2_def)
        then show ?thesis
          using assms(1)[unfolded cacheSound_def, rule_format, of w2 h2 t2 cached] caps
          unfolding c2_def by simp
      qed
    qed
  qed
qed

section \<open>Initialization is all or nothing\<close>

lemma promiseAll_rejected:
  assumes "got a = None" "\<forall>c. Onload a c \<notin> set pre"
  shows "\<exists>a'. promiseAll got (pre @ Onerror a # post) = Inl a'"
  using assms
proof (induction pre arbitrary: got)
  case Nil
  then show ?case by simp
next
  case (Cons e pre)
  show ?case
  proof (cases e)
    case (Onload b c)
    then have "b \<noteq> a" using Cons.prems(2) by auto
    then have "(if got b = None then got(b \<mapsto> c) else got) a = None"
      using Cons.prems(1) by simp
    moreover have "\<forall>c. Onload a c \<notin> set pre" using Cons.prems(2) by simp
    ultimately show ?thesis using Cons.IH Onload by simp
  next
    case (Onerror b)
    have "\<forall>c. Onload a c \<notin> set pre" using Cons.prems(2) by simp
    then have "\<exists>a'. promiseAll got (pre @ Onerror a # post) = Inl a'"
      using Cons.IH Cons.prems(1) by blast
    then show ?thesis using Onerror by simp
  qed
qed

lemma promiseAll_fulfilled:
  assumes "promiseAll got events = Inr got'" "got' a = Some c"
  shows "got a = Some c \<or> Onload a c \<in> set events"
  using assms
proof (induction got events rule: promiseAll.induct)
  case (1 got)
  then show ?case by simp
next
  case (2 got b d es)
  then have "(if got b = None then got(b \<mapsto> d) else got) a = Some c \<or> Onload a c \<in> set es"
    by simp
  then show ?case by (auto split: if_splits)
next
  case (3 got b es)
  then show ?case by (auto split: if_splits)
qed

lemma promiseAll_no_error:
  assumes "promiseAll got events = Inr got'" "Onerror a \<in> set events"
  shows "got a \<noteq> None \<or> (\<exists>c. Onload a c \<in> set events)"
  using assms
proof (induction got events rule: promiseAll.induct)
  case (1 got)
  then show ?case by simp
next
  case (2 got b d es)
  then have "(if got b = None then got(b \<mapsto> d) else got) a \<noteq> None \<or> (\<exists>c. Onload a c \<in> set es)"
    by simp
  then show ?case by (auto split: if_splits)
next
  case (3 got b es)
  then show ?case by (auto split: if_splits)
qed

lemma create_Ready:
  assumes "create events = Ready eng"
  shows "\<exists>got. promiseAll Map.empty events = Inr got \<and>
           (\<forall>a. got a = Some (captureOf (bgCaptures eng) a)) \<and>
           alphaMaps eng = Map.empty"
proof -
  from assms obtain got where g: "promiseAll Map.empty events = Inr got"
    by (auto simp add: create_def split: sum.splits)
  from assms g obtain b48 b96 d1 d2 d3 where
    s: "got GEMINI_BG_48 = Some b48" "got GEMINI_BG_96 = Some b96"
       "got (DOUBAO_BG Cat1x1) = Some d1" "got (DOUBAO_BG Cat2x3) = Some d2"
       "got (DOUBAO_BG Cat3x2) = Some d3"
    and e: "eng = WatermarkEngine
                 \<lparr>bg48 = b48, bg96 = b96,
                  doubao = (\<lambda>c. case c of Cat1x1 \<Rightarrow> d1 | Cat2x3 \<Rightarrow> d2 | Cat3x2 \<Rightarrow> d3)\<rparr>"
    by (auto simp add: create_def split: option.splits)
  have "got a = Some (captureOf (bgCaptures eng) a)" for a
  proof (cases a)
    case GEMINI_BG_48
    then show ?thesis using s e by (simp add: WatermarkEngine_def)
  next
    case GEMINI_BG_96
    then show ?thesis using s e by (simp add: WatermarkEngine_def)
  next
    case (DOUBAO_BG c)
    then show ?thesis using s e by (cases c) (simp_all add: WatermarkEngine_def)
  qed
  then show ?thesis using g e by (auto simp add: WatermarkEngine_def)
qed

text \<open>
  C9. Initialization is all or nothing. \<^verbatim>\<open>create\<close> gives an engine only when all
  five captures (the two Gemini templates and the three Doubao templates) have
  loaded, and the engine holds exactly the loaded captures; if the load of any one
  capture fails (its \<^verbatim>\<open>onerror\<close> arrives with no \<^verbatim>\<open>onload\<close> of it before), \<^verbatim>\<open>create\<close>
  fails with an error and gives no engine. An engine with some captures and not
  others does not exist.
\<close>

theorem initialization_all_or_nothing:
  "(create events = Ready eng \<longrightarrow>
      (\<forall>a. Onload a (captureOf (bgCaptures eng) a) \<in> set events)) \<and>
   ((\<exists>a pre post. events = pre @ Onerror a # post \<and> (\<forall>c. Onload a c \<notin> set pre)) \<longrightarrow>
      (\<exists>a'. create events = InitializationFailure a') \<and> (\<forall>e. create events \<noteq> Ready e))"
proof (rule conjI)
  show "create events = Ready eng \<longrightarrow>
      (\<forall>a. Onload a (captureOf (bgCaptures eng) a) \<in> set events)"
  proof (intro impI allI)
    fix a
    assume "create events = Ready eng"
    from create_Ready[OF this] obtain got where
      g: "promiseAll Map.empty events = Inr got" "got a = Some (captureOf (bgCaptures eng) a)"
      by blast
    from promiseAll_fulfilled[OF g] show "Onload a (captureOf (bgCaptures eng) a) \<in> set events"
      by simp
  qed
  show "(\<exists>a pre post. events = pre @ Onerror a # post \<and> (\<forall>c. Onload a c \<notin> set pre)) \<longrightarrow>
      (\<exists>a'. create events = InitializationFailure a') \<and> (\<forall>e. create events \<noteq> Ready e)"
  proof
    assume "\<exists>a pre post. events = pre @ Onerror a # post \<and> (\<forall>c. Onload a c \<notin> set pre)"
    then obtain a pre post where
      ev: "events = pre @ Onerror a # post" and nl: "\<forall>c. Onload a c \<notin> set pre"
      by blast
    have "\<exists>a'. promiseAll Map.empty events = Inl a'"
      unfolding ev by (rule promiseAll_rejected) (simp_all add: nl)
    then show "(\<exists>a'. create events = InitializationFailure a') \<and> (\<forall>e. create events \<noteq> Ready e)"
      by (auto simp add: create_def)
  qed
qed

text \<open>
  All five captures load, in some order; and the 96 pixel template fails after the
  48 pixel template has loaded.
\<close>

theorem initialization_all_or_nothing_witness:
  "create [Onload (DOUBAO_BG Cat3x2) (doubao exampleCaptures Cat3x2),
           Onload GEMINI_BG_96 (bg96 exampleCaptures),
           Onload (DOUBAO_BG Cat1x1) (doubao exampleCaptures Cat1x1),
           Onload GEMINI_BG_48 (bg48 exampleCaptures),
           Onload (DOUBAO_BG Cat2x3) (doubao exampleCaptures Cat2x3)]
     = Ready (WatermarkEngine
         \<lparr>bg48 = bg48 exampleCaptures, bg96 = bg96 exampleCaptures,
          doubao = (\<lambda>c. case c of Cat1x1 \<Rightarrow> doubao exampleCaptures Cat1x1
                               | Cat2x3 \<Rightarrow> doubao exampleCaptures Cat2x3
                               | Cat3x2 \<Rightarrow> doubao exampleCaptures Cat3x2)\<rparr>) \<and>
   Onload GEMINI_BG_96 (bg96 exampleCaptures)
     \<in> set [Onload (DOUBAO_BG Cat3x2) (doubao exampleCaptures Cat3x2),
            Onload GEMINI_BG_96 (bg96 exampleCaptures),
            Onload (DOUBAO_BG Cat1x1) (doubao exampleCaptures Cat1x1),
            Onload GEMINI_BG_48 (bg48 exampleCaptures),
            Onload (DOUBAO_BG Cat2x3) (doubao exampleCaptures Cat2x3)] \<and>
   create [Onload GEMINI_BG_48 (bg48 exampleCaptures), Onerror GEMINI_BG_96,
           Onload (DOUBAO_BG Cat1x1) (doubao exampleCaptures Cat1x1)]
     = InitializationFailure GEMINI_BG_96"
proof -
  define evs where "evs = [Onload (DOUBAO_BG Cat3x2) (doubao exampleCaptures Cat3x2),
           Onload GEMINI_BG_96 (bg96 exampleCaptures),
           Onload (DOUBAO_BG Cat1x1) (doubao exampleCaptures Cat1x1),
           Onload GEMINI_BG_48 (bg48 exampleCaptures),
           Onload (DOUBAO_BG Cat2x3) (doubao exampleCaptures Cat2x3)]"
  define eng where "eng = WatermarkEngine
         \<lparr>bg48 = bg48 exampleCaptures, bg96 = bg96 exampleCaptures,
          doubao = (\<lambda>c. case c of Cat1x1 \<Rightarrow> doubao exampleCaptures Cat1x1
                               | Cat2x3 \<Rightarrow> doubao exampleCaptures Cat2x3
                               | Cat3x2 \<Rightarrow> doubao exampleCaptures Cat3x2)\<rparr>"
  define bad where "bad = [Onload GEMINI_BG_48 (bg48 exampleCaptures), Onerror GEMINI_BG_96,
           Onload (DOUBAO_BG Cat1x1) (doubao exampleCaptures Cat1x1)]"
  have r: "create evs = Ready eng"
    by (simp add: create_def evs_def eng_def)
  have "\<forall>a. Onload a (captureOf (bgCaptures eng) a) \<in> set evs"
    using initialization_all_or_nothing [of evs eng] r by blast
  then have "Onload GEMINI_BG_96 (captureOf (bgCaptures eng) GEMINI_BG_96) \<in> set evs"
    by blast
  then have m: "Onload GEMINI_BG_96 (bg96 exampleCaptures) \<in> set evs"
    by (simp add: eng_def WatermarkEngine_def)
  have "\<exists>a pre post. bad = pre @ Onerror a # post \<and> (\<forall>c. Onload a c \<notin> set pre)"
  proof (intro exI conjI)
    show "bad = [Onload GEMINI_BG_48 (bg48 exampleCaptures)] @ Onerror GEMINI_BG_96 #
                [Onload (DOUBAO_BG Cat1x1) (doubao exampleCaptures Cat1x1)]"
      by (simp add: bad_def)
    show "\<forall>c. Onload GEMINI_BG_96 c \<notin> set [Onload GEMINI_BG_48 (bg48 exampleCaptures)]"
      by simp
  qed
  then have "\<exists>a'. create bad = InitializationFailure a'"
    using initialization_all_or_nothing [of bad eng] by blast
  then have f: "create bad = InitializationFailure GEMINI_BG_96"
    by (auto simp add: create_def bad_def)
  show ?thesis using r m f unfolding evs_def eng_def bad_def by simp
qed

section \<open>Reverse blend\<close>

lemma Math_round_of_int: "Math_round (of_int n) = n"
proof -
  have "\<lfloor>(of_int n :: rat) + 1 / 2\<rfloor> = n" by linarith
  then show ?thesis by (simp add: Math_round_def)
qed

lemma clampByte_le: "clampByte v \<le> 255"
  by (simp add: clampByte_def)

lemma clampByte_id: "n \<le> 255 \<Longrightarrow> clampByte (int n) = n"
  by (simp add: clampByte_def)

lemma divisor_lower_bound: "1 / 1000 \<le> 1 - clampAlpha a"
  by (simp add: clampAlpha_def ALPHA_CEILING_def min_def)

lemma reverseBlend_le: "reverseBlend F C_obs a \<le> 255"
  by (simp add: reverseBlend_def clampByte_le)

text \<open>
  The forward value as it is, not yet stored as a byte, is recovered exactly.
\<close>

lemma reverseBlend_forwardBlend:
  assumes "0 \<le> a" "a \<le> 999 / 1000" "C_true \<le> 255"
  shows "reverseBlend F (forwardBlend F (of_nat C_true) a) a = C_true"
proof -
  have ca: "clampAlpha a = a" using assms(2) by (simp add: clampAlpha_def ALPHA_CEILING_def)
  have nz: "1 - a \<noteq> 0" using assms(2) by simp
  have "(forwardBlend F (of_nat C_true) a - a * F) / (1 - a) = of_nat C_true"
    using nz by (simp add: forwardBlend_def)
  then have "(forwardBlend F (of_nat C_true) a - clampAlpha a * F) / (1 - clampAlpha a)
             = of_int (int C_true)"
    by (simp add: ca)
  then show ?thesis
    unfolding reverseBlend_def by (simp only: Math_round_of_int clampByte_id[OF assms(3)])
qed

text \<open>
  C7. At an alpha of exactly 1 the reverse blend does not divide by zero: the alpha
  is clamped to the ceiling 0.999 before the division, the divisor is 0.001 (for no
  alpha is it zero), and the channel value that results is a byte from 0 to 255.
\<close>

theorem opaque_alpha_is_safe:
  "clampAlpha 1 = 999 / 1000 \<and> 1 - clampAlpha 1 = 1 / 1000 \<and> 1 - clampAlpha a \<noteq> 0 \<and>
   reverseBlend F C_obs 1 = clampByte (Math_round ((C_obs - 999 / 1000 * F) / (1 / 1000))) \<and>
   reverseBlend F C_obs 1 \<le> 255"
proof -
  have c: "clampAlpha 1 = 999 / 1000" by (simp add: clampAlpha_def ALPHA_CEILING_def)
  have "1 / 1000 \<le> 1 - clampAlpha a" by (rule divisor_lower_bound)
  then have "1 - clampAlpha a \<noteq> 0" by auto
  moreover have "reverseBlend F C_obs 1 =
      clampByte (Math_round ((C_obs - 999 / 1000 * F) / (1 / 1000)))"
    unfolding reverseBlend_def c by simp
  ultimately show ?thesis using c reverseBlend_le[of F C_obs 1] by simp
qed

subsection \<open>Round trip through the pixel buffer\<close>

text \<open>
  The compositor reads the observed value from the pixel buffer, where it is a byte.
  The inversion divides the rounding error of that byte, at most one half, by
  \<open>1 - a\<close>.
\<close>

lemma clampByte_near:
  assumes "C \<le> 255" "int C - 1 \<le> r" "r \<le> int C + 1"
  shows "\<bar>int (clampByte r) - int C\<bar> \<le> 1"
  using assms by (auto simp add: clampByte_def)

lemma Math_round_error: "\<bar>of_int (Math_round v) - v\<bar> \<le> 1 / 2"
proof -
  have "of_int \<lfloor>v + 1 / 2\<rfloor> \<le> v + 1 / 2" "v + 1 / 2 < of_int \<lfloor>v + 1 / 2\<rfloor> + 1"
    by linarith+
  then show ?thesis unfolding Math_round_def by linarith
qed

lemma forwardBlend_range:
  assumes "0 \<le> F" "F \<le> 255" "0 \<le> a" "a \<le> 1" "C \<le> 255"
  shows "0 \<le> forwardBlend F (of_nat C) a" and "forwardBlend F (of_nat C) a \<le> 255"
proof -
  have c: "(0::rat) \<le> of_nat C" "(of_nat C :: rat) \<le> 255" using assms(5) by simp_all
  have a1: "0 \<le> 1 - a" using assms(4) by simp
  have "0 \<le> a * F" using assms(1,3) by simp
  moreover have "0 \<le> (1 - a) * of_nat C" using a1 c(1) by simp
  ultimately show "0 \<le> forwardBlend F (of_nat C) a" by (simp add: forwardBlend_def)
  have "a * F \<le> a * 255" using assms(2,3) by (rule mult_left_mono)
  moreover have "(1 - a) * of_nat C \<le> (1 - a) * 255" using c(2) a1 by (rule mult_left_mono)
  ultimately have "a * F + (1 - a) * of_nat C \<le> a * 255 + (1 - a) * 255" by linarith
  also have "\<dots> = 255" by (simp add: algebra_simps)
  finally show "forwardBlend F (of_nat C) a \<le> 255" by (simp add: forwardBlend_def)
qed

lemma observedByte_error:
  assumes "0 \<le> F" "F \<le> 255" "0 \<le> a" "a \<le> 1" "C \<le> 255"
  shows "\<bar>of_nat (observedByte F C a) - forwardBlend F (of_nat C) a\<bar> \<le> 1 / 2"
proof -
  define v where "v = forwardBlend F (of_nat C) a"
  have v: "0 \<le> v" "v \<le> 255" unfolding v_def using forwardBlend_range[OF assms] by simp_all
  have lo: "0 \<le> Math_round v" using v(1) unfolding Math_round_def by (simp add: le_floor_iff)
  have "v + 1 / 2 < 256" using v(2) by simp
  then have "Math_round v < 256" unfolding Math_round_def by (simp add: floor_less_iff)
  then have hi: "Math_round v \<le> 255" by simp
  have "int (clampByte (Math_round v)) = Math_round v"
    using lo hi by (simp add: clampByte_def)
  then have "(of_nat (clampByte (Math_round v)) :: rat) = of_int (Math_round v)"
    by (metis of_int_of_nat_eq)
  then show ?thesis
    unfolding observedByte_def v_def[symmetric] using Math_round_error[of v] by simp
qed

lemma byte_round_trip:
  assumes "0 \<le> a" "a < 2 / 3" "C \<le> 255"
    and "\<bar>of_nat q - forwardBlend F (of_nat C) a\<bar> \<le> 1 / 2"
  shows "\<bar>int (reverseBlend F (of_nat q) a) - int C\<bar> \<le> 1"
proof -
  define v where "v = forwardBlend F (of_nat C) a"
  define x :: rat where "x = (of_nat q - a * F) / (1 - a)"
  have ca: "clampAlpha a = a" using assms(2) by (simp add: clampAlpha_def ALPHA_CEILING_def)
  have pos: "1 / 3 < 1 - a" using assms(2) by simp
  then have nz: "1 - a \<noteq> 0" by simp
  have d: "\<bar>of_nat q - v\<bar> \<le> 1 / 2" using assms(4) by (simp add: v_def)
  have "v - a * F = (1 - a) * of_nat C" by (simp add: v_def forwardBlend_def)
  then have "of_nat q - a * F = (1 - a) * of_nat C + (of_nat q - v)" by simp
  then have "x = ((1 - a) * of_nat C + (of_nat q - v)) / (1 - a)" by (simp add: x_def)
  also have "\<dots> = of_nat C + (of_nat q - v) / (1 - a)"
    using nz by (simp add: add_divide_distrib)
  finally have xe: "x = of_nat C + (of_nat q - v) / (1 - a)" .
  have h: "1 / 2 < 3 / 2 * (1 - a)" using assms(2) by (simp add: algebra_simps)
  have "\<bar>of_nat q - v\<bar> < 3 / 2 * (1 - a)" using d h by (rule le_less_trans)
  then have "\<bar>of_nat q - v\<bar> / (1 - a) < 3 / 2"
    using pos by (simp add: pos_divide_less_eq)
  then have "\<bar>(of_nat q - v) / (1 - a)\<bar> < 3 / 2" using pos by (simp add: abs_divide)
  then have b: "of_nat C - 3 / 2 < x" "x < of_nat C + 3 / 2" unfolding xe by linarith+
  have "of_int (int C - 1) \<le> x + 1 / 2" using b(1) by simp
  then have r1: "int C - 1 \<le> Math_round x" unfolding Math_round_def by (simp only: le_floor_iff)
  have "x + 1 / 2 < of_int (int C + 2)" using b(2) by simp
  then have "Math_round x < int C + 2" unfolding Math_round_def by (simp only: floor_less_iff)
  then have r2: "Math_round x \<le> int C + 1" by simp
  show ?thesis
    unfolding reverseBlend_def ca x_def[symmetric]
    by (rule clampByte_near[OF assms(3) r1 r2])
qed

text \<open>
  C6, amended. Round trip of the reverse blend through the pixel buffer: for a true
  channel byte \<open>C_true\<close> from 0 to 255, a tint \<open>F\<close> from 0 to 255 and an opacity
  \<open>a\<close> from 0 to below two thirds, composing \<open>C_obs = a\<cdot>F + (1 - a)\<cdot>C_true\<close> by
  the forward model, storing it as a byte and then applying the reverse blend
  \<open>(C_obs - a\<cdot>F) / (1 - a)\<close>, rounded and clamped to 0 to 255, recovers \<open>C_true\<close>
  within one.
\<close>

theorem byte_round_trip_stability:
  assumes "0 \<le> F" "F \<le> 255" "0 \<le> a" "a < 2 / 3" "C_true \<le> 255"
  shows "\<bar>int (reverseBlend F (of_nat (observedByte F C_true a)) a) - int C_true\<bar> \<le> 1"
proof -
  have "a \<le> 1" using assms(4) by simp
  from observedByte_error[OF assms(1) assms(2) assms(3) this assms(5)]
  show ?thesis by (rule byte_round_trip[OF assms(3) assms(4) assms(5)])
qed

text \<open>
  Observed bytes and their inversions: at the opacity one half; at 0.999; at three
  quarters, where the byte 1 comes back as 3; and at two thirds exactly, where a
  tint of three quarters brings the byte 0 back as 2.
\<close>

lemma example_bytes:
  "observedByte 255 17 (1 / 2) = 136" "reverseBlend 255 136 (1 / 2) = 17"
  "observedByte 255 17 (999 / 1000) = 255" "reverseBlend 255 255 (999 / 1000) = 255"
  "observedByte 255 1 (3 / 4) = 192" "reverseBlend 255 192 (3 / 4) = 3"
  "observedByte (3 / 4) 0 (2 / 3) = 1" "reverseBlend (3 / 4) 1 (2 / 3) = 2"
  by code_simp+

text \<open>
  The byte 17 under a white tint at the opacity one half.
\<close>

theorem byte_round_trip_stability_witness:
  "(0::rat) \<le> 255 \<and> (255::rat) \<le> 255 \<and> (0::rat) \<le> 1 / 2 \<and> (1 / 2 :: rat) < 2 / 3 \<and>
   (17::nat) \<le> 255 \<and>
   \<bar>int (reverseBlend 255 (of_nat (observedByte 255 17 (1 / 2))) (1 / 2)) - int 17\<bar> \<le> 1"
  using byte_round_trip_stability [of 255 "1 / 2" 17] by simp

text \<open>
  C6, as stated, fails. At the opacity 0.999 under a white tint the byte 17 is
  observed as the byte 255, and the reverse blend gives 255 for it, 238 away from 17.
\<close>

theorem round_trip_counterexample:
  "(0::rat) \<le> 999 / 1000 \<and> (999 / 1000 :: rat) \<le> 999 / 1000 \<and> (17::nat) \<le> 255 \<and>
   observedByte 255 17 (999 / 1000) = 255 \<and>
   reverseBlend 255 (of_nat (observedByte 255 17 (999 / 1000))) (999 / 1000) = 255 \<and>
   \<not> \<bar>int (reverseBlend 255 (of_nat (observedByte 255 17 (999 / 1000))) (999 / 1000)) - int 17\<bar> \<le> 1"
  by (simp add: example_bytes)

section \<open>The compositor writes inside the rectangle\<close>














section \<open>Orchestrator\<close>








text \<open>
  For the Gemini variant a rectangle that does not fit arises exactly from an image
  of the small bucket that is narrower or lower than 80 pixels.
\<close>

lemma gemini_small_rect_fits_iff:
  assumes "min imageWidth imageHeight \<le> 1024"
  shows "rectFits imageWidth imageHeight
           (calculateWatermarkPosition imageWidth imageHeight
              (calculateGeminiConfig imageWidth imageHeight))
         \<longleftrightarrow> 80 \<le> imageWidth \<and> 80 \<le> imageHeight"
  unfolding calculateGeminiConfig_small[OF assms]
  by (auto simp add: rectFits_def calculateWatermarkPosition_def)

lemma gemini_medium_rect_fits:
  assumes "1024 < min imageWidth imageHeight" "min imageWidth imageHeight \<le> 2048"
  shows "rectFits imageWidth imageHeight
           (calculateWatermarkPosition imageWidth imageHeight
              (calculateGeminiConfig imageWidth imageHeight))"
  unfolding calculateGeminiConfig_medium[OF assms]
  using assms(1) by (auto simp add: rectFits_def calculateWatermarkPosition_def)





end
